theory Spec2Isabelle
  imports Main "HOL-Library.Word"
begin

unbundle bit_operations_syntax

section \<open>Socket addresses and interface descriptors\<close>

text \<open>
  A \<open>struct in_addr\<close> is kept as its four bytes in the order they lie in memory, which
  is network byte order. Storing \<open>htonl x\<close> into \<open>s_addr\<close> writes the bytes of \<open>x\<close> most
  significant first, and \<open>ntohl\<close> of the loaded \<open>s_addr\<close> reads them back the same way,
  whatever the byte order of the host.
\<close>

datatype in_addr = In_addr "8 word" "8 word" "8 word" "8 word"

definition htonl :: "32 word \<Rightarrow> in_addr" where
  "htonl x = In_addr (ucast (drop_bit 24 x)) (ucast (drop_bit 16 x)) (ucast (drop_bit 8 x)) (ucast x)"

fun ntohl :: "in_addr \<Rightarrow> 32 word" where
  "ntohl (In_addr b0 b1 b2 b3) =
     push_bit 24 (ucast b0) OR push_bit 16 (ucast b1) OR push_bit 8 (ucast b2) OR ucast b3"

text \<open>
  \<open>struct sockaddr\<close> with its family tag: \<open>sockaddr_in\<close> carries an \<open>in_addr\<close>,
  \<open>sockaddr_in6\<close> the bytes of its \<open>sin6_addr\<close> (sixteen of them in a well-formed
  address), any other family only its number.
\<close>

datatype sockaddr =
    Sockaddr_in in_addr
  | Sockaddr_in6 "8 word list"
  | Sockaddr_other nat

record ArvNetworkInterface =
  addr :: "sockaddr option"
  netmask :: "sockaddr option"
  broadaddr :: "sockaddr option"
  name :: "string option"

text \<open>What a C read can do besides returning a value.\<close>

datatype fault = Null_dereference | Out_of_bounds

text \<open>Reading \<open>i6[pos]\<close>: a position outside the array has no byte.\<close>

definition byte_at :: "8 word list \<Rightarrow> nat \<Rightarrow> 8 word option" where
  "byte_at i6 pos = (if pos < length i6 then Some (i6 ! pos) else None)"

subsection \<open>\<open>arv_network_get_fake_ipv4_loopback\<close>\<close>

definition arv_network_get_fake_ipv4_loopback :: ArvNetworkInterface where
  "arv_network_get_fake_ipv4_loopback =
     \<lparr> addr = Some (Sockaddr_in (htonl 0x7f000001)),
       netmask = Some (Sockaddr_in (htonl 0xff000000)),
       broadaddr = Some (Sockaddr_in (htonl 0x7fffffff)),
       name = Some ''<fake IPv4 localhost>'' \<rparr>"

subsection \<open>\<open>arv_network_interface_is_loopback\<close>\<close>

text \<open>
  The loop \<open>for (pos = 0; pos < 16; pos++)\<close> over the bytes of the IPv6 address, followed
  by the test of \<open>i6[16]\<close> that the function makes once the loop has run to its end.
\<close>

function is_loopback_in6 :: "8 word list \<Rightarrow> nat \<Rightarrow> fault + bool" where
  "is_loopback_in6 i6 pos =
     (if pos < 16 then
        (case byte_at i6 pos of
           None \<Rightarrow> Inl Out_of_bounds
         | Some b \<Rightarrow> if b \<noteq> 0 then Inr False else is_loopback_in6 i6 (pos + 1))
      else
        (case byte_at i6 16 of
           None \<Rightarrow> Inl Out_of_bounds
         | Some b \<Rightarrow> if b \<noteq> 1 then Inr False else Inr True))"
  by pat_completeness auto
termination
  by (relation "measure (\<lambda>(i6, pos). 16 - pos)") auto

declare is_loopback_in6.simps [simp del]

definition arv_network_interface_is_loopback :: "ArvNetworkInterface option \<Rightarrow> fault + bool" where
  "arv_network_interface_is_loopback a =
     (case a of
        None \<Rightarrow> Inr False
      | Some a \<Rightarrow>
          (case addr a of
             None \<Rightarrow> Inl Null_dereference
           | Some (Sockaddr_in sin_addr) \<Rightarrow> Inr (drop_bit 24 (ntohl sin_addr) = 0x7f)
           | Some (Sockaddr_in6 sin6_addr) \<Rightarrow> is_loopback_in6 sin6_addr 0
           | Some (Sockaddr_other f) \<Rightarrow> Inr False))"


section \<open>Enumeration of the interfaces (POSIX builds)\<close>

text \<open>
  One entry of the list that \<open>getifaddrs\<close> returns. On the BSD family a \<open>struct sockaddr\<close>
  starts with its own length \<open>sa_len\<close>; the other platforms have no such field and never
  read it.
\<close>

record ifa_sockaddr =
  sa_len :: "8 word"
  sa :: sockaddr

record ifaddrs =
  ifa_name :: "string option"
  ifa_flags :: "32 word"
  ifa_addr :: "ifa_sockaddr option"
  ifa_netmask :: "ifa_sockaddr option"
  ifa_broadaddr :: "ifa_sockaddr option"

text \<open>
  The two bodies that the preprocessor selects between:
  \<open>(defined(__APPLE__) && defined(__MACH__)) || defined(BSD)\<close> and everything else.
\<close>

datatype platform = Apple_or_BSD | Other_posix

definition IFF_UP :: "32 word" where
  "IFF_UP = 0x1"

definition sizeof_sockaddr :: nat where
  "sizeof_sockaddr = 16"

text \<open>
  Modelled from the spec: \<open>arv_memdup\<close> is defined in a file that is not among the sources.
  It gives no copy for a null pointer or a size of zero, and a copy of the bytes otherwise.
  The sizes it is called with here are those of a whole address (\<open>sizeof (struct sockaddr)\<close>,
  or the length the platform itself reports for the address), so a copy is the address.
\<close>

definition arv_memdup :: "ifa_sockaddr option \<Rightarrow> nat \<Rightarrow> sockaddr option" where
  "arv_memdup mem byte_size =
     (case mem of
        None \<Rightarrow> None
      | Some x \<Rightarrow> if byte_size = 0 then None else Some (sa x))"

definition g_strdup :: "string option \<Rightarrow> string option" where
  "g_strdup str = str"

text \<open>The test at the head of the loop body: up, with an address, of family \<open>AF_INET\<close>.\<close>

definition ifa_accepted :: "ifaddrs \<Rightarrow> bool" where
  "ifa_accepted ifa =
     (ifa_flags ifa AND IFF_UP \<noteq> 0 \<and>
      (case ifa_addr ifa of
         None \<Rightarrow> False
       | Some x \<Rightarrow> (case sa x of Sockaddr_in _ \<Rightarrow> True | _ \<Rightarrow> False)))"

text \<open>
  The length \<open>ifa_addr->sa_len\<close> that the fallback on Apple and BSD hands to \<open>arv_memdup\<close>.
  It is read only for an entry that has passed the test above, whose \<open>ifa_addr\<close> is not
  null.
\<close>

definition ifa_addr_len :: "ifaddrs \<Rightarrow> nat" where
  "ifa_addr_len ifa = (case ifa_addr ifa of None \<Rightarrow> 0 | Some x \<Rightarrow> unat (sa_len x))"

text \<open>The descriptor built for an accepted entry; fields never assigned stay null.\<close>

definition new_interface :: "platform \<Rightarrow> ifaddrs \<Rightarrow> ArvNetworkInterface" where
  "new_interface p ifa =
     \<lparr> addr = arv_memdup (ifa_addr ifa) sizeof_sockaddr,
       netmask =
         (case ifa_netmask ifa of
            None \<Rightarrow> None
          | Some m \<Rightarrow> arv_memdup (Some m) sizeof_sockaddr),
       broadaddr =
         (case p of
            Apple_or_BSD \<Rightarrow>
              (case ifa_broadaddr ifa of
                 Some b \<Rightarrow>
                   if sa_len b \<noteq> 0 then arv_memdup (Some b) (unat (sa_len b))
                   else arv_memdup (ifa_addr ifa) (ifa_addr_len ifa)
               | None \<Rightarrow> arv_memdup (ifa_addr ifa) (ifa_addr_len ifa))
          | Other_posix \<Rightarrow>
              (case ifa_broadaddr ifa of
                 None \<Rightarrow> None
               | Some b \<Rightarrow> arv_memdup (Some b) sizeof_sockaddr)),
       name = (case ifa_name ifa of None \<Rightarrow> None | Some n \<Rightarrow> g_strdup (Some n)) \<rparr>"

text \<open>The loop over the entries, prepending each descriptor to \<open>ret\<close>.\<close>

fun enumerate_loop :: "platform \<Rightarrow> ifaddrs list \<Rightarrow> ArvNetworkInterface list \<Rightarrow> ArvNetworkInterface list" where
  "enumerate_loop p [] ret = ret"
| "enumerate_loop p (ifap_iter # rest) ret =
     (if ifa_accepted ifap_iter
      then enumerate_loop p rest (new_interface p ifap_iter # ret)
      else enumerate_loop p rest ret)"

text \<open>
  \<open>getifaddrs\<close> either fails (\<open>None\<close>) or yields the list of entries; the result is the
  reversed \<open>ret\<close>.
\<close>

definition arv_enumerate_network_interfaces :: "platform \<Rightarrow> ifaddrs list option \<Rightarrow> ArvNetworkInterface list" where
  "arv_enumerate_network_interfaces p getifaddrs =
     (case getifaddrs of
        None \<Rightarrow> []
      | Some ifap \<Rightarrow> rev (enumerate_loop p ifap []))"

section \<open>The port range\<close>

text \<open>The three \<open>guint32\<close> variables that the mutex guards.\<close>

record port_range =
  arv_port_minimum :: "32 word"
  arv_port_maximum :: "32 word"
  arv_last_port_offset :: "32 word"

definition initial_port_range :: port_range where
  "initial_port_range = \<lparr> arv_port_minimum = 0, arv_port_maximum = 0, arv_last_port_offset = 0 \<rparr>"

subsection \<open>\<open>arv_set_gv_port_range\<close>\<close>

definition arv_set_gv_port_range :: "16 word \<Rightarrow> 16 word \<Rightarrow> port_range \<Rightarrow> bool \<times> port_range" where
  "arv_set_gv_port_range pmin pmax st =
     (if \<not> pmin \<le> pmax then (False, st)
      else
        let st1 = st\<lparr>arv_port_minimum := ucast pmin\<rparr>;
            st2 = st1\<lparr>arv_port_maximum := ucast pmax\<rparr>;
            st3 = st2\<lparr>arv_last_port_offset := arv_port_maximum st2 - arv_port_minimum st2\<rparr>
        in (True, st3))"

subsection \<open>\<open>arv_set_gv_port_range_from_string\<close>\<close>

definition is_digit :: "char \<Rightarrow> bool" where
  "is_digit c = (48 \<le> (of_char c :: nat) \<and> (of_char c :: nat) \<le> 57)"

text \<open>
  The sequences that end a line for the regular expression library when no newline flag
  is given (any Unicode newline, here as UTF-8 bytes): LF, VT, FF, CR, CR LF, NEL, LS, PS.
\<close>

definition newline_sequences :: "string list" where
  "newline_sequences =
     [[CHR 0x0A], [CHR 0x0B], [CHR 0x0C], [CHR 0x0D], [CHR 0x0D, CHR 0x0A],
      [CHR 0xC2, CHR 0x85], [CHR 0xE2, CHR 0x80, CHR 0xA8], [CHR 0xE2, CHR 0x80, CHR 0xA9]]"

text \<open>
  Where \<open>$\<close> holds without the dollar-end-only flag: at the very end of the subject, and
  also just before a newline that is the last thing in it.
\<close>

definition dollar :: "string \<Rightarrow> bool" where
  "dollar rest = (rest = [] \<or> rest \<in> set newline_sequences)"

text \<open>
  \<open>g_regex_match\<close> with the pattern \<open>^([\d]+)-([\d]+)$\<close>, and the two groups that
  \<open>g_match_info_fetch\<close> then returns. A digit is never a hyphen or the start of a newline,
  so the longest run of digits is the only way for each group to match.
\<close>

definition g_regex_match :: "string \<Rightarrow> (string \<times> string) option" where
  "g_regex_match string =
     (let g1 = takeWhile is_digit string; r1 = dropWhile is_digit string in
      if g1 = [] then None
      else (case r1 of
              [] \<Rightarrow> None
            | c # r2 \<Rightarrow>
                if c \<noteq> CHR ''-'' then None
                else
                  let g2 = takeWhile is_digit r2; r3 = dropWhile is_digit r2 in
                  if g2 = [] then None
                  else if dollar r3 then Some (g1, g2) else None))"

text \<open>The value of a string of decimal digits.\<close>

definition decimal_value :: "string \<Rightarrow> nat" where
  "decimal_value ds = foldl (\<lambda>v c. 10 * v + ((of_char c :: nat) - 48)) 0 ds"

text \<open>
  \<open>g_ascii_strtoull\<close> in base 10 on a string of digits: its value, or \<open>G_MAXUINT64\<close> when
  the value does not fit.
\<close>

definition g_ascii_strtoull :: "string \<Rightarrow> 64 word" where
  "g_ascii_strtoull nptr =
     (if decimal_value nptr > 2 ^ 64 - 1 then 0xFFFFFFFFFFFFFFFF else of_nat (decimal_value nptr))"

text \<open>
  The two results of \<open>g_ascii_strtoull\<close> are assigned to \<open>guint16\<close> variables, which keeps
  their low sixteen bits. A null \<open>range\<close> argument is refused first.
\<close>

definition arv_set_gv_port_range_from_string :: "string option \<Rightarrow> port_range \<Rightarrow> bool \<times> port_range" where
  "arv_set_gv_port_range_from_string range_string st =
     (case range_string of
        None \<Rightarrow> (False, st)
      | Some s \<Rightarrow>
          (case g_regex_match s of
             None \<Rightarrow> (False, st)
           | Some (g1, g2) \<Rightarrow>
               let pmin = (ucast (g_ascii_strtoull g1) :: 16 word);
                   pmax = (ucast (g_ascii_strtoull g2) :: 16 word)
               in if pmin > pmax then (False, st)
                  else arv_set_gv_port_range pmin pmax st))"


section \<open>Binding a socket\<close>

text \<open>Error domains are quarks; two of them are named in the function.\<close>

datatype quark = G_IO_ERROR | ARV_NETWORK_ERROR | Quark nat

datatype GError = GError (domain: quark) (code: int) (message: string)

text \<open>The member of \<open>GIOErrorEnum\<close> for an address that is already in use.\<close>

definition G_IO_ERROR_ADDRESS_IN_USE :: int where
  "G_IO_ERROR_ADDRESS_IN_USE = 33"

text \<open>
  Modelled from the spec: the error kind PortExhaustion. The enumeration \<open>ArvNetworkError\<close>
  is declared in a header that is not among the sources; this is its first member.
\<close>

definition ARV_NETWORK_ERROR_PORT_EXHAUSTION :: int where
  "ARV_NETWORK_ERROR_PORT_EXHAUSTION = 0"

text \<open>An address with a port, as \<open>g_inet_socket_address_new\<close> builds it.\<close>

datatype 'a socket_address = g_inet_socket_address_new (address: 'a) (port: "16 word")

text \<open>
  What one call of \<open>g_socket_bind\<close> reports: success, or failure with the error it has
  set, if any.
\<close>

datatype bind_outcome = Bind_ok | Bind_failed "GError option"

text \<open>
  The operating system is a state of any type and \<open>g_socket_bind\<close> a function of it:
  given the state, the socket, the address and the reuse flag, it reports the outcome
  and the state that follows.
\<close>

type_synonym ('os, 'a) g_socket_bind =
  "'os \<Rightarrow> nat \<Rightarrow> 'a socket_address \<Rightarrow> bool \<Rightarrow> bind_outcome \<times> 'os"

text \<open>
  What the caller gets: the address the socket was bound to, or null together with what
  was stored through \<open>error\<close>. A remainder by zero has no result.
\<close>

datatype 'a bind_return =
    Bound "'a socket_address"
  | Failed "GError option"
  | Division_by_zero

text \<open>
  The state after a call, with the calls of \<open>g_socket_bind\<close> it has made, in order, each
  with its outcome.
\<close>

record ('os, 'a) bind_result =
  returned :: "'a bind_return"
  range_after :: port_range
  os_after :: 'os
  bind_calls :: "('a socket_address \<times> bind_outcome) list"

text \<open>The decimal digits that \<open>%u\<close> prints.\<close>

fun format_u :: "nat \<Rightarrow> string" where
  "format_u n =
     (if n < 10 then [''0123456789'' ! n]
      else format_u (n div 10) @ [''0123456789'' ! (n mod 10)])"

declare format_u.simps [simp del]

definition port_exhaustion_error :: "port_range \<Rightarrow> GError" where
  "port_exhaustion_error st =
     GError ARV_NETWORK_ERROR ARV_NETWORK_ERROR_PORT_EXHAUSTION
       (''No more available port in range ['' @ format_u (unat (arv_port_minimum st)) @ ''..'' @
        format_u (unat (arv_port_maximum st)) @ '']'')"

text \<open>
  The test on \<open>local_error\<close> after a failed attempt: present, and not the address-in-use
  error of the I/O domain.
\<close>

definition aborts_scan :: "GError option \<Rightarrow> bool" where
  "aborts_scan local_error =
     (case local_error of
        None \<Rightarrow> False
      | Some e \<Rightarrow> domain e \<noteq> G_IO_ERROR \<or> code e \<noteq> G_IO_ERROR_ADDRESS_IN_USE)"

definition note_call ::
  "'a socket_address \<times> bind_outcome \<Rightarrow> ('os, 'a) bind_result \<Rightarrow> ('os, 'a) bind_result" where
  "note_call c r = r\<lparr>bind_calls := c # bind_calls r\<rparr>"

text \<open>
  The loop \<open>for (i = 0; i <= arv_port_maximum - arv_port_minimum; i++)\<close>, from the value
  \<open>i\<close> of its counter. All arithmetic is that of \<open>guint32\<close>; the sum handed to
  \<open>g_inet_socket_address_new\<close> is cut to the \<open>guint16\<close> of its parameter.
\<close>

function port_scan ::
  "('os, 'a) g_socket_bind \<Rightarrow> nat \<Rightarrow> 'a \<Rightarrow> bool \<Rightarrow> 32 word \<Rightarrow> port_range \<Rightarrow> 'os \<Rightarrow> ('os, 'a) bind_result" where
  "port_scan g_socket_bind socket addr_arg allow_reuse i st os =
     (if i \<le> arv_port_maximum st - arv_port_minimum st then
        if arv_port_maximum st - arv_port_minimum st + 1 = 0 then
          \<lparr> returned = Division_by_zero, range_after = st, os_after = os, bind_calls = [] \<rparr>
        else
          let st' = st\<lparr>arv_last_port_offset :=
                      (arv_last_port_offset st + 1) mod (arv_port_maximum st - arv_port_minimum st + 1)\<rparr>;
              socket_address =
                g_inet_socket_address_new addr_arg (ucast (arv_port_minimum st' + arv_last_port_offset st'));
              outcome = fst (g_socket_bind os socket socket_address allow_reuse);
              os' = snd (g_socket_bind os socket socket_address allow_reuse)
          in case outcome of
               Bind_ok \<Rightarrow>
                 \<lparr> returned = Bound socket_address, range_after = st', os_after = os',
                   bind_calls = [(socket_address, outcome)] \<rparr>
             | Bind_failed local_error \<Rightarrow>
                 if aborts_scan local_error then
                   \<lparr> returned = Failed local_error, range_after = st', os_after = os',
                     bind_calls = [(socket_address, outcome)] \<rparr>
                 else
                   note_call (socket_address, outcome)
                     (port_scan g_socket_bind socket addr_arg allow_reuse (i + 1) st' os')
      else
        \<lparr> returned = Failed (Some (port_exhaustion_error st)), range_after = st, os_after = os,
          bind_calls = [] \<rparr>)"
  by pat_completeness auto
termination
proof (relation "measure (\<lambda>(g_socket_bind, socket, addr_arg, allow_reuse, i, st, os).
                   Suc (unat (arv_port_maximum st - arv_port_minimum st)) - unat i)", goal_cases)
  case 1
  show ?case by simp
next
  case (2 g_socket_bind socket addr_arg allow_reuse i st os st' socket_address outcome os' local_error)
  have le: "i \<le> arv_port_maximum st - arv_port_minimum st"
    and nz: "arv_port_maximum st - arv_port_minimum st + 1 \<noteq> 0"
    and st': "st' = st\<lparr>arv_last_port_offset :=
                (arv_last_port_offset st + 1) mod (arv_port_maximum st - arv_port_minimum st + 1)\<rparr>"
    using 2 by simp_all
  have "i + 1 \<noteq> 0"
  proof
    assume "i + 1 = 0"
    then have "i = - 1" by (simp add: eq_neg_iff_add_eq_0)
    with le have "arv_port_maximum st - arv_port_minimum st = - 1"
      by (simp add: word_order.extremum_unique)
    with nz show False by simp
  qed
  then have "unat (i + 1) = Suc (unat i)"
    using unatSuc [of i] by (simp add: add.commute)
  moreover from le have "unat i \<le> unat (arv_port_maximum st - arv_port_minimum st)"
    by (simp add: word_le_nat_alt)
  ultimately show ?case
    using st' by simp
qed

declare port_scan.simps [simp del]

subsection \<open>\<open>arv_socket_bind_with_range\<close>\<close>

definition arv_socket_bind_with_range ::
  "('os, 'a) g_socket_bind \<Rightarrow> nat \<Rightarrow> 'a \<Rightarrow> 16 word \<Rightarrow> bool \<Rightarrow> port_range \<Rightarrow> 'os \<Rightarrow> ('os, 'a) bind_result" where
  "arv_socket_bind_with_range g_socket_bind socket addr_arg port_arg allow_reuse st os =
     (if port_arg \<noteq> 0 \<or> (arv_port_minimum st = 0 \<and> arv_port_maximum st = 0) then
        let socket_address = g_inet_socket_address_new addr_arg port_arg;
            outcome = fst (g_socket_bind os socket socket_address allow_reuse);
            os' = snd (g_socket_bind os socket socket_address allow_reuse)
        in case outcome of
             Bind_ok \<Rightarrow>
               \<lparr> returned = Bound socket_address, range_after = st, os_after = os',
                 bind_calls = [(socket_address, outcome)] \<rparr>
           | Bind_failed err \<Rightarrow>
               \<lparr> returned = Failed err, range_after = st, os_after = os',
                 bind_calls = [(socket_address, outcome)] \<rparr>
      else port_scan g_socket_bind socket addr_arg allow_reuse 0 st os)"


subsection \<open>Notions used in the statements\<close>

text \<open>One advance of the cursor, and the address the attempt that follows it is made to.\<close>

definition advance_cursor :: "port_range \<Rightarrow> port_range" where
  "advance_cursor st =
     st\<lparr>arv_last_port_offset :=
          (arv_last_port_offset st + 1) mod (arv_port_maximum st - arv_port_minimum st + 1)\<rparr>"

definition candidate :: "'a \<Rightarrow> port_range \<Rightarrow> 'a socket_address" where
  "candidate a st = g_inet_socket_address_new a (ucast (arv_port_minimum st + arv_last_port_offset st))"

text \<open>
  The variables hold the bounds \<open>pmin\<close> and \<open>pmax\<close> that \<open>arv_set_gv_port_range\<close> was given,
  and the cursor lies within them.
\<close>

definition range_installed :: "16 word \<Rightarrow> 16 word \<Rightarrow> port_range \<Rightarrow> bool" where
  "range_installed pmin pmax st =
     (pmin \<le> pmax \<and> arv_port_minimum st = ucast pmin \<and> arv_port_maximum st = ucast pmax \<and>
      arv_last_port_offset st \<le> ucast pmax - ucast pmin)"

text \<open>An attempt after which the scan goes on: it failed, and not with an error that aborts.\<close>

definition retried :: "bind_outcome \<Rightarrow> bool" where
  "retried outcome = (case outcome of Bind_ok \<Rightarrow> False | Bind_failed e \<Rightarrow> \<not> aborts_scan e)"

definition address_in_use :: "GError \<Rightarrow> bool" where
  "address_in_use e = (domain e = G_IO_ERROR \<and> code e = G_IO_ERROR_ADDRESS_IN_USE)"

text \<open>
  Calls of \<open>arv_socket_bind_with_range\<close> one after the other, each given by its socket,
  address, port and reuse flag; the port range and the operating system pass from each
  call to the next.
\<close>

fun bind_sequence ::
  "('os, 'a) g_socket_bind \<Rightarrow> (nat \<times> 'a \<times> 16 word \<times> bool) list \<Rightarrow> port_range \<Rightarrow> 'os \<Rightarrow> port_range \<times> 'os" where
  "bind_sequence g_socket_bind [] st os = (st, os)"
| "bind_sequence g_socket_bind ((socket, a, p, allow_reuse) # calls) st os =
     bind_sequence g_socket_bind calls
       (range_after (arv_socket_bind_with_range g_socket_bind socket a p allow_reuse st os))
       (os_after (arv_socket_bind_with_range g_socket_bind socket a p allow_reuse st os))"

section \<open>Loopback addresses\<close>

lemma ntohl_leading_byte: "drop_bit 24 (ntohl (In_addr b0 b1 b2 b3)) = ucast b0"
  by (auto simp: bit_eq_iff bit_simps dest: bit_imp_le_length)

lemma ucast_byte_eq_127: "((ucast (b :: 8 word)) :: 32 word) = 0x7f \<longleftrightarrow> b = 0x7f"
proof -
  have "unat ((ucast b) :: 32 word) = unat b"
    by (simp add: unsigned_ucast_eq take_bit_nat_eq_self_iff)
       (rule order_less_trans [OF unsigned_less], simp)
  then show ?thesis by (simp add: word_unat_eq_iff)
qed

text \<open>An IPv4 address is a loopback address exactly when its leading byte is 127.\<close>

lemma is_loopback_in:
  "arv_network_interface_is_loopback
     (Some \<lparr> addr = Some (Sockaddr_in (In_addr b0 b1 b2 b3)), netmask = nm, broadaddr = bc, name = n \<rparr>)
   = Inr (b0 = 127)"
  by (simp add: arv_network_interface_is_loopback_def ntohl_leading_byte ucast_byte_eq_127
        del: ntohl.simps)

lemma is_loopback_other_family:
  "arv_network_interface_is_loopback
     (Some \<lparr> addr = Some (Sockaddr_other f), netmask = nm, broadaddr = bc, name = n \<rparr>) = Inr False"
  by (simp add: arv_network_interface_is_loopback_def)

lemma is_loopback_in6_nonzero:
  "pos < 16 \<Longrightarrow> pos < length i6 \<Longrightarrow> i6 ! pos \<noteq> 0 \<Longrightarrow> is_loopback_in6 i6 pos = Inr False"
  by (subst is_loopback_in6.simps) (simp add: byte_at_def)

lemma is_loopback_in6_zero:
  "pos < 16 \<Longrightarrow> pos < length i6 \<Longrightarrow> i6 ! pos = 0 \<Longrightarrow>
   is_loopback_in6 i6 pos = is_loopback_in6 i6 (pos + 1)"
  by (subst is_loopback_in6.simps) (simp add: byte_at_def)

lemma is_loopback_in6_end:
  "length i6 = 16 \<Longrightarrow> is_loopback_in6 i6 16 = Inl Out_of_bounds"
  by (subst is_loopback_in6.simps) (simp add: byte_at_def)

text \<open>No sixteen-byte IPv6 address is ever found to be a loopback address.\<close>

lemma is_loopback_in6_never_true:
  assumes "length i6 = 16"
  shows "pos \<le> 16 \<Longrightarrow> is_loopback_in6 i6 pos \<noteq> Inr True"
proof (induction "16 - pos" arbitrary: pos)
  case 0
  then have "pos = 16" by simp
  then show ?case using assms by (simp add: is_loopback_in6_end)
next
  case (Suc m)
  then have lt: "pos < 16" "pos < length i6" using assms by simp_all
  show ?case
  proof (cases "i6 ! pos = 0")
    case True
    have "is_loopback_in6 i6 (pos + 1) \<noteq> Inr True"
      using Suc.hyps(1) [of "pos + 1"] Suc.hyps(2) lt by simp
    then show ?thesis using lt True by (simp add: is_loopback_in6_zero)
  next
    case False
    then show ?thesis using lt by (simp add: is_loopback_in6_nonzero)
  qed
qed

lemma is_loopback_in6_zeros:
  assumes "length i6 = 16" and "\<forall>b \<in> set i6. b = 0"
  shows "pos \<le> 16 \<Longrightarrow> is_loopback_in6 i6 pos = Inl Out_of_bounds"
proof (induction "16 - pos" arbitrary: pos)
  case 0
  then have "pos = 16" by simp
  then show ?case using assms by (simp add: is_loopback_in6_end)
next
  case (Suc m)
  then have lt: "pos < 16" "pos < length i6" using assms by simp_all
  then have "i6 ! pos = 0" using assms(2) by simp
  moreover have "is_loopback_in6 i6 (pos + 1) = Inl Out_of_bounds"
    using Suc.hyps(1) [of "pos + 1"] Suc.hyps(2) lt by simp
  ultimately show ?case using lt by (simp add: is_loopback_in6_zero)
qed

lemma is_loopback_examples:
  "arv_network_interface_is_loopback
     (Some \<lparr> addr = Some (Sockaddr_in (In_addr 127 0 0 1)), netmask = nm, broadaddr = bc, name = n \<rparr>) = Inr True"
  "arv_network_interface_is_loopback
     (Some \<lparr> addr = Some (Sockaddr_in (In_addr 127 5 5 5)), netmask = nm, broadaddr = bc, name = n \<rparr>) = Inr True"
  "arv_network_interface_is_loopback
     (Some \<lparr> addr = Some (Sockaddr_in (In_addr 10 0 0 1)), netmask = nm, broadaddr = bc, name = n \<rparr>) = Inr False"
  "arv_network_interface_is_loopback
     (Some \<lparr> addr = Some (Sockaddr_in6 [0,0,0,0,0,0,0,0,0,0,0,0,0,0,0,2]),
             netmask = nm, broadaddr = bc, name = n \<rparr>) = Inr False"
  by (simp_all add: is_loopback_in)
     (simp add: arv_network_interface_is_loopback_def is_loopback_in6_zero is_loopback_in6_nonzero)

text \<open>
  C2, at the address \<open>::1\<close>. The loop tests all sixteen bytes for zero, the last one
  included, so it leaves with \<open>FALSE\<close> at position 15, where \<open>::1\<close> has its 1: the
  function answers that \<open>::1\<close> is not a loopback address.
\<close>

theorem is_loopback_rejects_ipv6_loopback:
  "arv_network_interface_is_loopback
     (Some \<lparr> addr = Some (Sockaddr_in6 [0,0,0,0,0,0,0,0,0,0,0,0,0,0,0,1]),
             netmask = nm, broadaddr = bc, name = n \<rparr>) = Inr False"
  by (simp add: arv_network_interface_is_loopback_def is_loopback_in6_zero is_loopback_in6_nonzero)

text \<open>
  C8. The descriptor of the fake loopback interface has the name
  \<open><fake IPv4 localhost>\<close>, the address 127.0.0.1, the netmask 255.0.0.0 and the broadcast
  address 127.255.255.255, and it is found to be a loopback interface.
\<close>

theorem fake_loopback_descriptor:
  "arv_network_get_fake_ipv4_loopback =
     \<lparr> addr = Some (Sockaddr_in (In_addr 127 0 0 1)),
       netmask = Some (Sockaddr_in (In_addr 255 0 0 0)),
       broadaddr = Some (Sockaddr_in (In_addr 127 255 255 255)),
       name = Some ''<fake IPv4 localhost>'' \<rparr>
   \<and> arv_network_interface_is_loopback (Some arv_network_get_fake_ipv4_loopback) = Inr True"
  by (simp add: arv_network_get_fake_ipv4_loopback_def htonl_def is_loopback_in)

text \<open>
  C10. For the all-zero IPv6 address \<open>::\<close> every one of the sixteen bytes is read and found
  zero, the byte at index 16 does not exist, and the function ends in the read outside the
  address.
\<close>

theorem is_loopback_reads_past_the_address:
  "map (byte_at (replicate 16 0)) [0..<16] = replicate 16 (Some 0)
   \<and> byte_at (replicate 16 0) 16 = None
   \<and> arv_network_interface_is_loopback
       (Some \<lparr> addr = Some (Sockaddr_in6 (replicate 16 0)), netmask = nm, broadaddr = bc, name = n \<rparr>)
     = Inl Out_of_bounds"
proof -
  have "map (byte_at (replicate 16 0)) [0..<16] = replicate 16 (Some 0)"
    by (simp add: byte_at_def list_eq_iff_nth_eq)
  moreover have "is_loopback_in6 (replicate 16 0) 0 = Inl Out_of_bounds"
    by (rule is_loopback_in6_zeros) simp_all
  ultimately show ?thesis
    by (simp add: arv_network_interface_is_loopback_def byte_at_def)
qed


section \<open>The port range and the scan\<close>

subsection \<open>Arithmetic of the bounds\<close>

lemma unat_ucast_16_32: "unat ((ucast (p :: 16 word)) :: 32 word) = unat p"
  by (simp add: unsigned_ucast_eq take_bit_nat_eq_self_iff)
     (rule order_less_trans [OF unsigned_less], simp)

lemma unat_16_bound: "unat (p :: 16 word) < 65536"
  using unsigned_less [of p] by simp

lemma range_width:
  fixes pmin pmax :: "16 word"
  assumes "pmin \<le> pmax"
  shows "unat ((ucast pmax :: 32 word) - ucast pmin) = unat pmax - unat pmin"
proof -
  have "(ucast pmin :: 32 word) \<le> ucast pmax"
    using assms by (simp add: word_le_nat_alt unat_ucast_16_32)
  then show ?thesis by (simp add: unat_sub unat_ucast_16_32)
qed

lemma range_width_succ:
  fixes pmin pmax :: "16 word"
  assumes "pmin \<le> pmax"
  shows "unat ((ucast pmax :: 32 word) - ucast pmin + 1) = unat pmax - unat pmin + 1"
proof -
  have "unat pmax - unat pmin + 1 < 2 ^ 32" using unat_16_bound [of pmax] by simp
  then show ?thesis
    using range_width [OF assms] by (simp add: unat_word_ariths)
qed

lemma range_width_succ_nonzero:
  fixes pmin pmax :: "16 word"
  shows "pmin \<le> pmax \<Longrightarrow> (ucast pmax :: 32 word) - ucast pmin + 1 \<noteq> 0"
  using range_width_succ [of pmin pmax] by (metis Suc_eq_plus1 nat.simps(3) unat_0)

lemma installed_facts:
  assumes "range_installed pmin pmax st"
  shows "unat (arv_port_minimum st) = unat pmin"
    and "unat (arv_port_maximum st) = unat pmax"
    and "unat pmin \<le> unat pmax"
    and "unat (arv_port_maximum st - arv_port_minimum st) = unat pmax - unat pmin"
    and "arv_port_maximum st - arv_port_minimum st + 1 \<noteq> 0"
    and "unat (arv_last_port_offset st) \<le> unat pmax - unat pmin"
proof -
  have le: "pmin \<le> pmax"
    and mn: "arv_port_minimum st = ucast pmin"
    and mx: "arv_port_maximum st = ucast pmax"
    and off: "arv_last_port_offset st \<le> ucast pmax - ucast pmin"
    using assms by (simp_all add: range_installed_def)
  show "unat (arv_port_minimum st) = unat pmin" by (simp add: mn unat_ucast_16_32)
  show "unat (arv_port_maximum st) = unat pmax" by (simp add: mx unat_ucast_16_32)
  show "unat pmin \<le> unat pmax" using le by (simp add: word_le_nat_alt)
  show "unat (arv_port_maximum st - arv_port_minimum st) = unat pmax - unat pmin"
    by (simp add: mn mx range_width [OF le])
  show "arv_port_maximum st - arv_port_minimum st + 1 \<noteq> 0"
    by (simp add: mn mx range_width_succ_nonzero [OF le])
  show "unat (arv_last_port_offset st) \<le> unat pmax - unat pmin"
    using off range_width [OF le] by (simp add: word_le_nat_alt)
qed

lemma advance_offset:
  assumes "range_installed pmin pmax st"
  shows "unat (arv_last_port_offset (advance_cursor st)) =
           (unat (arv_last_port_offset st) + 1) mod (unat pmax - unat pmin + 1)"
proof -
  have le: "pmin \<le> pmax" using assms by (simp add: range_installed_def)
  have "unat (arv_last_port_offset st) + 1 < 2 ^ 32"
    using installed_facts(6) [OF assms] unat_16_bound [of pmax] by simp
  then have "unat (arv_last_port_offset st + 1) = unat (arv_last_port_offset st) + 1"
    by (simp add: unat_word_ariths)
  then show ?thesis
    using assms range_width_succ [OF le]
    by (simp add: advance_cursor_def unat_mod range_installed_def)
qed

lemma advance_installed:
  assumes "range_installed pmin pmax st"
  shows "range_installed pmin pmax (advance_cursor st)"
proof -
  have le: "pmin \<le> pmax" using assms by (simp add: range_installed_def)
  have "unat (arv_last_port_offset (advance_cursor st)) \<le> unat pmax - unat pmin"
    using advance_offset [OF assms] 
    by (metis Suc_eq_plus1 less_Suc_eq_le mod_less_divisor zero_less_Suc)
  moreover have "arv_port_minimum (advance_cursor st) = arv_port_minimum st"
    "arv_port_maximum (advance_cursor st) = arv_port_maximum st"
    by (simp_all add: advance_cursor_def)
  ultimately show ?thesis
    using assms by (simp add: range_installed_def word_le_nat_alt range_width)
qed

lemma candidate_port:
  assumes "range_installed pmin pmax st"
  shows "unat (port (candidate a st)) = unat pmin + unat (arv_last_port_offset st)"
proof -
  have b: "unat pmin + unat (arv_last_port_offset st) \<le> unat pmax"
    using installed_facts(3,6) [OF assms] by simp
  then have "unat pmin + unat (arv_last_port_offset st) < 65536"
    using unat_16_bound [of pmax] by simp
  moreover have "unat (arv_port_minimum st + arv_last_port_offset st) =
      unat pmin + unat (arv_last_port_offset st)"
    using calculation installed_facts(1) [OF assms] by (simp add: unat_word_ariths)
  ultimately show ?thesis
    by (simp add: candidate_def unsigned_ucast_eq take_bit_nat_eq_self_iff)
qed


subsection \<open>The branches of one turn of the loop\<close>

lemma port_scan_exhausted:
  "\<not> i \<le> arv_port_maximum st - arv_port_minimum st \<Longrightarrow>
   port_scan g socket a reuse i st os =
     \<lparr> returned = Failed (Some (port_exhaustion_error st)), range_after = st, os_after = os,
       bind_calls = [] \<rparr>"
  by (subst port_scan.simps) simp

lemma port_scan_bound:
  "i \<le> arv_port_maximum st - arv_port_minimum st \<Longrightarrow>
   arv_port_maximum st - arv_port_minimum st + 1 \<noteq> 0 \<Longrightarrow>
   fst (g os socket (candidate a (advance_cursor st)) reuse) = Bind_ok \<Longrightarrow>
   port_scan g socket a reuse i st os =
     \<lparr> returned = Bound (candidate a (advance_cursor st)), range_after = advance_cursor st,
       os_after = snd (g os socket (candidate a (advance_cursor st)) reuse),
       bind_calls = [(candidate a (advance_cursor st), Bind_ok)] \<rparr>"
  by (subst port_scan.simps) (simp add: Let_def candidate_def advance_cursor_def)

lemma port_scan_aborted:
  "i \<le> arv_port_maximum st - arv_port_minimum st \<Longrightarrow>
   arv_port_maximum st - arv_port_minimum st + 1 \<noteq> 0 \<Longrightarrow>
   fst (g os socket (candidate a (advance_cursor st)) reuse) = Bind_failed e \<Longrightarrow>
   aborts_scan e \<Longrightarrow>
   port_scan g socket a reuse i st os =
     \<lparr> returned = Failed e, range_after = advance_cursor st,
       os_after = snd (g os socket (candidate a (advance_cursor st)) reuse),
       bind_calls = [(candidate a (advance_cursor st), Bind_failed e)] \<rparr>"
  by (subst port_scan.simps) (simp add: Let_def candidate_def advance_cursor_def)

lemma port_scan_retried:
  "i \<le> arv_port_maximum st - arv_port_minimum st \<Longrightarrow>
   arv_port_maximum st - arv_port_minimum st + 1 \<noteq> 0 \<Longrightarrow>
   fst (g os socket (candidate a (advance_cursor st)) reuse) = Bind_failed e \<Longrightarrow>
   \<not> aborts_scan e \<Longrightarrow>
   port_scan g socket a reuse i st os =
     note_call (candidate a (advance_cursor st), Bind_failed e)
       (port_scan g socket a reuse (i + 1) (advance_cursor st)
          (snd (g os socket (candidate a (advance_cursor st)) reuse)))"
  by (subst port_scan.simps) (simp add: Let_def candidate_def advance_cursor_def)



subsection \<open>A whole scan\<close>

lemma exhaustion_error_advance:
  "port_exhaustion_error (advance_cursor st) = port_exhaustion_error st"
  by (simp add: port_exhaustion_error_def advance_cursor_def)

lemma scan_index_succ:
  assumes "range_installed pmin pmax st" and "i \<le> arv_port_maximum st - arv_port_minimum st"
  shows "unat (i + 1) = unat i + 1" and "unat i \<le> unat pmax - unat pmin"
proof -
  show le: "unat i \<le> unat pmax - unat pmin"
    using assms(2) installed_facts(4) [OF assms(1)] by (simp add: word_le_nat_alt)
  then have "unat i + 1 < 2 ^ 32" using unat_16_bound [of pmax] by simp
  then show "unat (i + 1) = unat i + 1" by (simp add: unat_word_ariths)
qed

text \<open>
  The calls a scan makes from turn \<open>i\<close> on: how many, to which addresses, and where the
  cursor is left.
\<close>

lemma port_scan_trace:
  assumes "m = unat pmax - unat pmin + 1 - unat i" and "range_installed pmin pmax st"
  shows "length (bind_calls (port_scan g socket a reuse i st os)) \<le> m
    \<and> range_installed pmin pmax (range_after (port_scan g socket a reuse i st os))
    \<and> unat (arv_last_port_offset (range_after (port_scan g socket a reuse i st os))) =
        (unat (arv_last_port_offset st) + length (bind_calls (port_scan g socket a reuse i st os)))
          mod (unat pmax - unat pmin + 1)
    \<and> map fst (bind_calls (port_scan g socket a reuse i st os)) =
        map (\<lambda>k. g_inet_socket_address_new a
                   (pmin + of_nat ((unat (arv_last_port_offset st) + 1 + k) mod (unat pmax - unat pmin + 1))))
          [0..<length (bind_calls (port_scan g socket a reuse i st os))]"
  using assms
proof (induction m arbitrary: i st os)
  case 0
  then have "\<not> i \<le> arv_port_maximum st - arv_port_minimum st"
    using installed_facts(4) [OF "0.prems"(2)] by (simp add: word_le_nat_alt)
  then show ?case using "0.prems" installed_facts(6) [OF "0.prems"(2)]
    by (simp add: port_scan_exhausted)
next
  case (Suc m)
  let ?N = "unat pmax - unat pmin + 1"
  let ?st = "advance_cursor st"
  let ?sa = "candidate a ?st"
  let ?os = "snd (g os socket ?sa reuse)"
  have le: "i \<le> arv_port_maximum st - arv_port_minimum st"
    using Suc.prems installed_facts(4) [OF Suc.prems(2)] by (simp add: word_le_nat_alt)
  have nz: "arv_port_maximum st - arv_port_minimum st + 1 \<noteq> 0"
    by (rule installed_facts(5) [OF Suc.prems(2)])
  have inst: "range_installed pmin pmax ?st" by (rule advance_installed [OF Suc.prems(2)])
  have off: "unat (arv_last_port_offset ?st) = (unat (arv_last_port_offset st) + 1) mod ?N"
    by (rule advance_offset [OF Suc.prems(2)])
  have sa: "?sa = g_inet_socket_address_new a
      (pmin + of_nat ((unat (arv_last_port_offset st) + 1) mod ?N))"
  proof -
    have "port ?sa = of_nat (unat (port ?sa))" by simp
    also have "\<dots> = pmin + of_nat ((unat (arv_last_port_offset st) + 1) mod ?N)"
      by (simp add: candidate_port [OF inst] off)
    finally show ?thesis by (simp add: candidate_def)
  qed
  have i1: "unat (i + 1) = unat i + 1" by (rule scan_index_succ(1) [OF Suc.prems(2) le])
  have m: "m = ?N - unat (i + 1)" using Suc.prems(1) i1 by simp
  note IH = Suc.IH [OF m inst, of ?os]
  show ?case
  proof (cases "fst (g os socket ?sa reuse)")
    case Bind_ok
    show ?thesis
      unfolding port_scan_bound [where g = g and os = os and socket = socket and a = a and reuse = reuse, OF le nz Bind_ok]
      using inst off sa by simp
  next
    case (Bind_failed e)
    show ?thesis
    proof (cases "aborts_scan e")
      case True
      show ?thesis
        unfolding port_scan_aborted [where g = g and os = os and socket = socket and a = a and reuse = reuse, OF le nz Bind_failed True]
        using inst off sa by simp
    next
      case False
      define r where "r = port_scan g socket a reuse (i + 1) ?st ?os"
      define n where "n = length (bind_calls r)"
      have eq: "port_scan g socket a reuse i st os = note_call (?sa, Bind_failed e) r"
        unfolding r_def
        by (rule port_scan_retried [where g = g and os = os and socket = socket and a = a and reuse = reuse, OF le nz Bind_failed False])
      have len: "n \<le> m" using IH by (simp add: r_def n_def)
      have inst': "range_installed pmin pmax (range_after r)" using IH by (simp add: r_def)
      have off': "unat (arv_last_port_offset (range_after r)) =
          (unat (arv_last_port_offset st) + Suc n) mod ?N"
        using IH off by (simp add: mod_add_left_eq r_def n_def)
      have tr: "map fst (bind_calls r) =
          map (\<lambda>k. g_inet_socket_address_new a
                 (pmin + of_nat ((unat (arv_last_port_offset st) + 1 + Suc k) mod ?N)))
            [0..<n]"
      proof -
        have "\<And>k. (unat (arv_last_port_offset ?st) + 1 + k) mod ?N =
                   (unat (arv_last_port_offset st) + 1 + Suc k) mod ?N"
          unfolding off by (metis Suc_eq_plus1 add_Suc_right add_Suc mod_add_left_eq)
        then show ?thesis using IH by (simp add: r_def n_def)
      qed
      have upt: "[0..<Suc n] = 0 # map Suc [0..<n]"
        by (simp only: upt_conv_Cons [OF zero_less_Suc] map_Suc_upt)
      have "length (bind_calls (note_call (?sa, Bind_failed e) r)) = Suc n"
        by (simp add: note_call_def n_def)
      moreover have "range_after (note_call (?sa, Bind_failed e) r) = range_after r"
        by (simp add: note_call_def)
      moreover have "map fst (bind_calls (note_call (?sa, Bind_failed e) r)) =
          map (\<lambda>k. g_inet_socket_address_new a
                 (pmin + of_nat ((unat (arv_last_port_offset st) + 1 + k) mod ?N)))
            [0..<Suc n]"
        unfolding upt using tr sa by (simp add: note_call_def comp_def)
      ultimately show ?thesis
        unfolding eq using len inst' off' by simp
    qed
  qed
qed


text \<open>
  How a scan ends: every call but the last was one to go on from; a returned address is
  that of the last call, which succeeded; a returned error is that of the last call, which
  aborted, or else every call was one to go on from and the error is the exhaustion of
  the range.
\<close>

lemma port_scan_outcome:
  assumes "m = unat pmax - unat pmin + 1 - unat i" and "range_installed pmin pmax st"
  shows "list_all retried (map snd (butlast (bind_calls (port_scan g socket a reuse i st os))))
    \<and> (\<forall>sa. returned (port_scan g socket a reuse i st os) = Bound sa \<longrightarrow>
          bind_calls (port_scan g socket a reuse i st os) \<noteq> [] \<and>
          last (bind_calls (port_scan g socket a reuse i st os)) = (sa, Bind_ok))
    \<and> (\<forall>e. returned (port_scan g socket a reuse i st os) = Failed e \<longrightarrow>
          (bind_calls (port_scan g socket a reuse i st os) \<noteq> [] \<and>
           snd (last (bind_calls (port_scan g socket a reuse i st os))) = Bind_failed e \<and>
           aborts_scan e)
          \<or> (e = Some (port_exhaustion_error st) \<and>
              length (bind_calls (port_scan g socket a reuse i st os)) = m \<and>
              list_all retried (map snd (bind_calls (port_scan g socket a reuse i st os)))))
    \<and> returned (port_scan g socket a reuse i st os) \<noteq> Division_by_zero"
  using assms
proof (induction m arbitrary: i st os)
  case 0
  then have "\<not> i \<le> arv_port_maximum st - arv_port_minimum st"
    using installed_facts(4) [OF "0.prems"(2)] by (simp add: word_le_nat_alt)
  then show ?case by (simp add: port_scan_exhausted)
next
  case (Suc m)
  let ?N = "unat pmax - unat pmin + 1"
  let ?st = "advance_cursor st"
  let ?sa = "candidate a ?st"
  let ?os = "snd (g os socket ?sa reuse)"
  have le: "i \<le> arv_port_maximum st - arv_port_minimum st"
    using Suc.prems installed_facts(4) [OF Suc.prems(2)] by (simp add: word_le_nat_alt)
  have nz: "arv_port_maximum st - arv_port_minimum st + 1 \<noteq> 0"
    by (rule installed_facts(5) [OF Suc.prems(2)])
  have inst: "range_installed pmin pmax ?st" by (rule advance_installed [OF Suc.prems(2)])
  have i1: "unat (i + 1) = unat i + 1" by (rule scan_index_succ(1) [OF Suc.prems(2) le])
  have m: "m = ?N - unat (i + 1)" using Suc.prems(1) i1 by simp
  note IH = Suc.IH [OF m inst, of ?os]
  show ?case
  proof (cases "fst (g os socket ?sa reuse)")
    case Bind_ok
    show ?thesis
      unfolding port_scan_bound [where g = g and os = os and socket = socket and a = a and reuse = reuse, OF le nz Bind_ok]
      by simp
  next
    case (Bind_failed e)
    show ?thesis
    proof (cases "aborts_scan e")
      case True
      show ?thesis
        unfolding port_scan_aborted [where g = g and os = os and socket = socket and a = a and reuse = reuse, OF le nz Bind_failed True]
        using True by simp
    next
      case False
      define r where "r = port_scan g socket a reuse (i + 1) ?st ?os"
      define c where "c = (?sa, Bind_failed e)"
      have eq: "port_scan g socket a reuse i st os = note_call c r"
        unfolding r_def c_def
        by (rule port_scan_retried [where g = g and os = os and socket = socket and a = a and reuse = reuse, OF le nz Bind_failed False])
      have c: "retried (snd c)" using False by (simp add: c_def retried_def)
      have calls: "bind_calls (note_call c r) = c # bind_calls r"
        and ret: "returned (note_call c r) = returned r"
        by (simp_all add: note_call_def)
      have h1: "list_all retried (map snd (butlast (bind_calls r)))"
        and h2: "\<And>sa. returned r = Bound sa \<Longrightarrow> bind_calls r \<noteq> [] \<and> last (bind_calls r) = (sa, Bind_ok)"
        and h3: "\<And>e'. returned r = Failed e' \<Longrightarrow>
                  (bind_calls r \<noteq> [] \<and> snd (last (bind_calls r)) = Bind_failed e' \<and> aborts_scan e')
                  \<or> (e' = Some (port_exhaustion_error st) \<and> length (bind_calls r) = m
                      \<and> list_all retried (map snd (bind_calls r)))"
        and h4: "returned r \<noteq> Division_by_zero"
        using IH by (simp_all add: r_def exhaustion_error_advance)
      have g1: "list_all retried (map snd (butlast (c # bind_calls r)))"
        using h1 c by simp
      have g2: "\<And>sa. returned r = Bound sa \<Longrightarrow> last (c # bind_calls r) = (sa, Bind_ok)"
        using h2 by simp
      have g3: "\<And>e'. returned r = Failed e' \<Longrightarrow>
                  (snd (last (c # bind_calls r)) = Bind_failed e' \<and> aborts_scan e')
                  \<or> (e' = Some (port_exhaustion_error st) \<and> length (bind_calls r) = m
                      \<and> list_all retried (map snd (bind_calls r)))"
        using h3 by fastforce
      show ?thesis
        unfolding eq calls ret
        using g1 g2 g3 h4 c by (simp del: last.simps butlast.simps)
    qed
  qed
qed



subsection \<open>Setting the range, and binding under it\<close>

lemma ucast_16_32_eq_0: "((ucast (p :: 16 word)) :: 32 word) = 0 \<longleftrightarrow> p = 0"
  using unat_ucast_16_32 [of p] by (metis unat_0 unat_0_iff)

lemma ucast_32_16_ucast: "((ucast ((ucast (p :: 16 word)) :: 32 word)) :: 16 word) = p"
proof -
  have "unat ((ucast ((ucast p) :: 32 word)) :: 16 word) = unat p"
    using unat_16_bound [of p]
    by (simp add: unsigned_ucast_eq [where 'c = 16] unat_ucast_16_32 take_bit_nat_eq_self_iff)
  then show ?thesis by (simp add: word_unat_eq_iff)
qed

lemma set_range_result:
  "arv_set_gv_port_range pmin pmax st =
     (if pmin \<le> pmax
      then (True, \<lparr> arv_port_minimum = ucast pmin, arv_port_maximum = ucast pmax,
                    arv_last_port_offset = ucast pmax - ucast pmin \<rparr>)
      else (False, st))"
  by (simp add: arv_set_gv_port_range_def Let_def)

lemma set_range_installed:
  "pmin \<le> pmax \<Longrightarrow> range_installed pmin pmax (snd (arv_set_gv_port_range pmin pmax st))"
  by (simp add: set_range_result range_installed_def)

lemma installed_enabled:
  assumes "range_installed pmin pmax st" and "\<not> (pmin = 0 \<and> pmax = 0)"
  shows "\<not> (arv_port_minimum st = 0 \<and> arv_port_maximum st = 0)"
  using assms by (auto simp: range_installed_def ucast_16_32_eq_0)

lemma bind_automatic_is_scan:
  assumes "range_installed pmin pmax st" and "\<not> (pmin = 0 \<and> pmax = 0)"
  shows "arv_socket_bind_with_range g socket a 0 reuse st os = port_scan g socket a reuse 0 st os"
  using installed_enabled [OF assms] by (auto simp: arv_socket_bind_with_range_def)

lemma bind_direct:
  assumes "p \<noteq> 0 \<or> (arv_port_minimum st = 0 \<and> arv_port_maximum st = 0)"
  shows "arv_socket_bind_with_range g socket a p reuse st os =
     \<lparr> returned = (case fst (g os socket (g_inet_socket_address_new a p) reuse) of
                     Bind_ok \<Rightarrow> Bound (g_inet_socket_address_new a p)
                   | Bind_failed err \<Rightarrow> Failed err),
       range_after = st,
       os_after = snd (g os socket (g_inet_socket_address_new a p) reuse),
       bind_calls = [(g_inet_socket_address_new a p, fst (g os socket (g_inet_socket_address_new a p) reuse))] \<rparr>"
  using assms by (simp add: arv_socket_bind_with_range_def Let_def split: bind_outcome.split)

lemma bind_keeps_installed:
  assumes "range_installed pmin pmax st"
  shows "range_installed pmin pmax (range_after (arv_socket_bind_with_range g socket a p reuse st os))"
proof (cases "p \<noteq> 0 \<or> (arv_port_minimum st = 0 \<and> arv_port_maximum st = 0)")
  case True
  then show ?thesis using assms by (simp add: bind_direct)
next
  case False
  then have "arv_socket_bind_with_range g socket a p reuse st os = port_scan g socket a reuse 0 st os"
    by (auto simp: arv_socket_bind_with_range_def)
  then show ?thesis using port_scan_trace [where i = 0 and g = g and socket = socket and a = a and reuse = reuse and os = os, OF refl assms] by simp
qed

lemma bind_sequence_keeps_installed:
  "range_installed pmin pmax st \<Longrightarrow>
   range_installed pmin pmax (fst (bind_sequence g calls st os))"
proof (induction calls arbitrary: st os)
  case Nil
  then show ?case by simp
next
  case (Cons c calls)
  obtain socket a p reuse where c: "c = (socket, a, p, reuse)" by (cases c) auto
  show ?case
    unfolding c bind_sequence.simps
    by (rule Cons.IH) (rule bind_keeps_installed [OF Cons.prems])
qed

lemma port_in_range:
  fixes pmin pmax :: "16 word"
  assumes "pmin \<le> pmax" and "x < unat pmax - unat pmin + 1"
  shows "pmin \<le> pmin + of_nat x \<and> pmin + of_nat x \<le> pmax"
proof -
  have x: "unat pmin + x \<le> unat pmax" using assms by (simp add: word_le_nat_alt)
  then have "unat pmin + x < 2 ^ 16" using unat_16_bound [of pmax] by simp
  then have "unat (pmin + of_nat x) = unat pmin + x"
    by (simp add: unat_word_ariths unat_of_nat)
  then show ?thesis using x by (simp add: word_le_nat_alt)
qed



section \<open>Properties of the port range and of binding\<close>

lemma port_scan_first_call:
  assumes "i \<le> arv_port_maximum st - arv_port_minimum st"
    and "arv_port_maximum st - arv_port_minimum st + 1 \<noteq> 0"
  shows "take 1 (map fst (bind_calls (port_scan g socket a reuse i st os))) =
           [candidate a (advance_cursor st)]"
proof (cases "fst (g os socket (candidate a (advance_cursor st)) reuse)")
  case Bind_ok
  show ?thesis
    unfolding port_scan_bound [where g = g and os = os and socket = socket and a = a and reuse = reuse, OF assms Bind_ok]
    by simp
next
  case (Bind_failed e)
  show ?thesis
  proof (cases "aborts_scan e")
    case True
    show ?thesis
      unfolding port_scan_aborted [where g = g and os = os and socket = socket and a = a and reuse = reuse, OF assms Bind_failed True]
      by simp
  next
    case False
    show ?thesis
      unfolding port_scan_retried [where g = g and os = os and socket = socket and a = a and reuse = reuse, OF assms Bind_failed False]
      by (simp add: note_call_def)
  qed
qed

lemma first_candidate_after_set:
  fixes pmin pmax :: "16 word"
  assumes "pmin \<le> pmax"
  shows "candidate a (advance_cursor (snd (arv_set_gv_port_range pmin pmax st))) =
           g_inet_socket_address_new a pmin"
  using assms range_width_succ_nonzero [OF assms]
  by (simp add: set_range_result candidate_def advance_cursor_def ucast_32_16_ucast)

text \<open>
  C5. With \<open>pmin > pmax\<close> the call fails and leaves the three variables as they were.
  With \<open>pmin \<le> pmax\<close> it succeeds, the variables hold \<open>pmin\<close>, \<open>pmax\<close> and
  \<open>pmax - pmin\<close>, and the first address that the next bind with port 0 tries has the
  port \<open>pmin\<close>, that is offset 0.
\<close>

theorem set_gv_port_range_checks_and_resets:
  "(\<not> pmin \<le> pmax \<longrightarrow> arv_set_gv_port_range pmin pmax st = (False, st))
   \<and> (pmin \<le> pmax \<longrightarrow>
        arv_set_gv_port_range pmin pmax st =
          (True, \<lparr> arv_port_minimum = ucast pmin, arv_port_maximum = ucast pmax,
                   arv_last_port_offset = ucast pmax - ucast pmin \<rparr>)
        \<and> take 1 (map fst (bind_calls
              (arv_socket_bind_with_range g socket a 0 reuse
                 (snd (arv_set_gv_port_range pmin pmax st)) os))) =
            [g_inet_socket_address_new a pmin])"
proof (cases "pmin \<le> pmax")
  case False
  then show ?thesis by (simp add: set_range_result)
next
  case True
  let ?st = "snd (arv_set_gv_port_range pmin pmax st)"
  have inst: "range_installed pmin pmax ?st" by (rule set_range_installed [OF True])
  have "take 1 (map fst (bind_calls (arv_socket_bind_with_range g socket a 0 reuse ?st os))) =
          [g_inet_socket_address_new a pmin]"
  proof (cases "pmin = 0 \<and> pmax = 0")
    case True
    then have "arv_port_minimum ?st = 0 \<and> arv_port_maximum ?st = 0"
      by (simp add: set_range_result)
    then show ?thesis using True by (simp add: bind_direct)
  next
    case False
    have "take 1 (map fst (bind_calls (port_scan g socket a reuse 0 ?st os))) =
            [candidate a (advance_cursor ?st)]"
      by (rule port_scan_first_call) (simp_all add: installed_facts(5) [OF inst])
    then show ?thesis
      unfolding bind_automatic_is_scan [OF inst False] first_candidate_after_set [OF True] .
  qed
  then show ?thesis using True by (simp add: set_range_result)
qed

theorem set_gv_port_range_checks_and_resets_witness:
  "\<not> (5 :: 16 word) \<le> 3 \<and> (9000 :: 16 word) \<le> 9002
   \<and> arv_set_gv_port_range 5 3 initial_port_range = (False, initial_port_range)
   \<and> arv_set_gv_port_range 9000 9002 initial_port_range =
       (True, \<lparr> arv_port_minimum = 9000, arv_port_maximum = 9002, arv_last_port_offset = 2 \<rparr>)
   \<and> take 1 (map fst (bind_calls
         (arv_socket_bind_with_range (\<lambda>os socket sa reuse. (Bind_ok, os)) 0 (1 :: nat) 0 True
            (snd (arv_set_gv_port_range 9000 9002 initial_port_range)) ()))) =
       [g_inet_socket_address_new 1 9000]"
proof -
  have h1: "\<not> (5 :: 16 word) \<le> 3" and h2: "(9000 :: 16 word) \<le> 9002" by simp_all
  have a: "arv_set_gv_port_range 5 3 initial_port_range = (False, initial_port_range)"
    using set_gv_port_range_checks_and_resets [of 5 3 initial_port_range
        "\<lambda>os socket sa reuse. (Bind_ok, os)" 0 "1 :: nat" True "()"] h1 by blast
  have b: "arv_set_gv_port_range 9000 9002 initial_port_range =
       (True, \<lparr> arv_port_minimum = ucast (9000 :: 16 word), arv_port_maximum = ucast (9002 :: 16 word),
                arv_last_port_offset = ucast (9002 :: 16 word) - ucast (9000 :: 16 word) \<rparr>)
     \<and> take 1 (map fst (bind_calls
         (arv_socket_bind_with_range (\<lambda>os socket sa reuse. (Bind_ok, os)) 0 (1 :: nat) 0 True
            (snd (arv_set_gv_port_range 9000 9002 initial_port_range)) ()))) =
       [g_inet_socket_address_new 1 9000]"
    using set_gv_port_range_checks_and_resets [of 9000 9002 initial_port_range
        "\<lambda>os socket sa reuse. (Bind_ok, os)" 0 "1 :: nat" True "()"] h2 by blast
  have c: "\<lparr> arv_port_minimum = ucast (9000 :: 16 word), arv_port_maximum = ucast (9002 :: 16 word),
                arv_last_port_offset = ucast (9002 :: 16 word) - ucast (9000 :: 16 word) \<rparr> =
           \<lparr> arv_port_minimum = 9000, arv_port_maximum = 9002, arv_last_port_offset = 2 \<rparr>"
    by simp
  show ?thesis using h1 h2 a b unfolding c by blast
qed

text \<open>
  C4. When the requested port is not 0, or both bounds are 0, the function calls
  \<open>g_socket_bind\<close> once, with the given address and the requested port; it returns that
  address on success and on failure exactly the error of that call; the port range is
  left as it was.
\<close>

theorem explicit_port_binds_directly:
  assumes "p \<noteq> 0 \<or> (arv_port_minimum st = 0 \<and> arv_port_maximum st = 0)"
  shows "bind_calls (arv_socket_bind_with_range g socket a p reuse st os) =
           [(g_inet_socket_address_new a p, fst (g os socket (g_inet_socket_address_new a p) reuse))]
    \<and> returned (arv_socket_bind_with_range g socket a p reuse st os) =
        (case fst (g os socket (g_inet_socket_address_new a p) reuse) of
           Bind_ok \<Rightarrow> Bound (g_inet_socket_address_new a p)
         | Bind_failed err \<Rightarrow> Failed err)
    \<and> range_after (arv_socket_bind_with_range g socket a p reuse st os) = st
    \<and> os_after (arv_socket_bind_with_range g socket a p reuse st os) =
        snd (g os socket (g_inet_socket_address_new a p) reuse)"
  using assms by (simp add: bind_direct)


theorem explicit_port_binds_directly_witness:
  "(12345 :: 16 word) \<noteq> 0
   \<and> arv_port_minimum initial_port_range = 0 \<and> arv_port_maximum initial_port_range = 0
   \<and> bind_calls (arv_socket_bind_with_range
         (\<lambda>os socket sa reuse. (Bind_failed (Some (GError G_IO_ERROR G_IO_ERROR_ADDRESS_IN_USE ''in use'')), os))
         0 (1 :: nat) 12345 True
         \<lparr> arv_port_minimum = 9000, arv_port_maximum = 9002, arv_last_port_offset = 2 \<rparr> ()) =
       [(g_inet_socket_address_new 1 12345,
         Bind_failed (Some (GError G_IO_ERROR G_IO_ERROR_ADDRESS_IN_USE ''in use'')))]
   \<and> returned (arv_socket_bind_with_range
         (\<lambda>os socket sa reuse. (Bind_failed (Some (GError G_IO_ERROR G_IO_ERROR_ADDRESS_IN_USE ''in use'')), os))
         0 (1 :: nat) 12345 True
         \<lparr> arv_port_minimum = 9000, arv_port_maximum = 9002, arv_last_port_offset = 2 \<rparr> ()) =
       Failed (Some (GError G_IO_ERROR G_IO_ERROR_ADDRESS_IN_USE ''in use''))
   \<and> bind_calls (arv_socket_bind_with_range (\<lambda>os socket sa reuse. (Bind_ok, os))
         0 (1 :: nat) 0 True initial_port_range ()) =
       [(g_inet_socket_address_new 1 0, Bind_ok)]"
proof -
  have h1: "(12345 :: 16 word) \<noteq> 0 \<or>
      (arv_port_minimum \<lparr> arv_port_minimum = 9000, arv_port_maximum = 9002, arv_last_port_offset = 2 \<rparr> = 0 \<and>
       arv_port_maximum \<lparr> arv_port_minimum = 9000, arv_port_maximum = 9002, arv_last_port_offset = 2 \<rparr> = 0)"
    by simp
  have h2: "(0 :: 16 word) \<noteq> 0 \<or>
      (arv_port_minimum initial_port_range = 0 \<and> arv_port_maximum initial_port_range = 0)"
    by (simp add: initial_port_range_def)
  show ?thesis
    using
      explicit_port_binds_directly [OF h1, of
        "\<lambda>os socket sa reuse. (Bind_failed (Some (GError G_IO_ERROR G_IO_ERROR_ADDRESS_IN_USE ''in use'')), os)"
        0 "1 :: nat" True "()"]
      explicit_port_binds_directly [OF h2, of "\<lambda>os socket sa reuse. (Bind_ok, os)" 0 "1 :: nat" True "()"]
    by (simp add: initial_port_range_def)
qed


text \<open>
  C1. Let \<open>arv_set_gv_port_range pmin pmax\<close> be called with \<open>pmin \<le> pmax\<close>, not both 0, and
  let any calls of \<open>arv_socket_bind_with_range\<close> follow. A further call with port 0 then makes at most
  \<open>pmax - pmin + 1\<close> calls of \<open>g_socket_bind\<close>; its \<open>k\<close>-th call (from 0) goes to the port
  \<open>pmin + (c + 1 + k) mod (pmax - pmin + 1)\<close>, where \<open>c\<close> is the cursor the call found, and
  the cursor it leaves is \<open>c\<close> advanced once for each call made; every port tried, and so
  the port of a returned address, lies between \<open>pmin\<close> and \<open>pmax\<close>.
\<close>

theorem automatic_bind_stays_in_range:
  fixes pmin pmax :: "16 word"
  assumes "pmin \<le> pmax" and "\<not> (pmin = 0 \<and> pmax = 0)"
    and "bind_sequence g calls (snd (arv_set_gv_port_range pmin pmax st0)) os0 = (st, os)"
  shows "fst (arv_set_gv_port_range pmin pmax st0)
    \<and> length (bind_calls (arv_socket_bind_with_range g socket a 0 reuse st os))
        \<le> unat pmax - unat pmin + 1
    \<and> map fst (bind_calls (arv_socket_bind_with_range g socket a 0 reuse st os)) =
        map (\<lambda>k. g_inet_socket_address_new a
                   (pmin + of_nat ((unat (arv_last_port_offset st) + 1 + k) mod (unat pmax - unat pmin + 1))))
          [0..<length (bind_calls (arv_socket_bind_with_range g socket a 0 reuse st os))]
    \<and> unat (arv_last_port_offset (range_after (arv_socket_bind_with_range g socket a 0 reuse st os))) =
        (unat (arv_last_port_offset st)
           + length (bind_calls (arv_socket_bind_with_range g socket a 0 reuse st os)))
          mod (unat pmax - unat pmin + 1)
    \<and> list_all (\<lambda>c. pmin \<le> port (fst c) \<and> port (fst c) \<le> pmax)
          (bind_calls (arv_socket_bind_with_range g socket a 0 reuse st os))
    \<and> (\<forall>sa. returned (arv_socket_bind_with_range g socket a 0 reuse st os) = Bound sa \<longrightarrow>
          pmin \<le> port sa \<and> port sa \<le> pmax)"
proof -
  let ?N = "unat pmax - unat pmin + 1"
  let ?r = "arv_socket_bind_with_range g socket a 0 reuse st os"
  have "range_installed pmin pmax (fst (bind_sequence g calls (snd (arv_set_gv_port_range pmin pmax st0)) os0))"
    by (rule bind_sequence_keeps_installed) (rule set_range_installed [OF assms(1)])
  then have inst: "range_installed pmin pmax st" using assms(3) by simp
  have scan: "?r = port_scan g socket a reuse 0 st os"
    by (rule bind_automatic_is_scan [OF inst assms(2)])
  note tr = port_scan_trace [where i = 0 and g = g and socket = socket and a = a and reuse = reuse and os = os, OF refl inst]
  note out = port_scan_outcome [where i = 0 and g = g and socket = socket and a = a and reuse = reuse and os = os, OF refl inst]
  have len: "length (bind_calls ?r) \<le> ?N" using tr by (simp add: scan)
  have addrs: "map fst (bind_calls ?r) =
      map (\<lambda>k. g_inet_socket_address_new a
                 (pmin + of_nat ((unat (arv_last_port_offset st) + 1 + k) mod ?N)))
        [0..<length (bind_calls ?r)]"
    using tr by (simp add: scan)
  have off: "unat (arv_last_port_offset (range_after ?r)) =
      (unat (arv_last_port_offset st) + length (bind_calls ?r)) mod ?N"
    using tr by (simp add: scan)
  have each: "pmin \<le> port sa \<and> port sa \<le> pmax" if "sa \<in> set (map fst (bind_calls ?r))" for sa
  proof -
    from that obtain k where "sa = g_inet_socket_address_new a
        (pmin + of_nat ((unat (arv_last_port_offset st) + 1 + k) mod ?N))"
      unfolding addrs by auto
    then show ?thesis using port_in_range [OF assms(1), of "(unat (arv_last_port_offset st) + 1 + k) mod ?N"]
      by simp
  qed
  have all: "list_all (\<lambda>c. pmin \<le> port (fst c) \<and> port (fst c) \<le> pmax) (bind_calls ?r)"
    using each by (simp add: list_all_iff)
  have ret: "pmin \<le> port sa \<and> port sa \<le> pmax" if "returned ?r = Bound sa" for sa
  proof -
    from that out have "bind_calls ?r \<noteq> []" and "last (bind_calls ?r) = (sa, Bind_ok)"
      by (simp_all add: scan)
    then have "(sa, Bind_ok) \<in> set (bind_calls ?r)" by (metis last_in_set)
    then have "sa \<in> set (map fst (bind_calls ?r))" by force
    then show ?thesis by (rule each)
  qed
  have "fst (arv_set_gv_port_range pmin pmax st0)" using assms(1) by (simp add: set_range_result)
  then show ?thesis using len addrs off all ret by blast
qed


theorem automatic_bind_stays_in_range_witness:
  "(9000 :: 16 word) \<le> 9002 \<and> \<not> ((9000 :: 16 word) = 0 \<and> (9002 :: 16 word) = 0)
   \<and> bind_sequence (\<lambda>os socket sa reuse. (Bind_ok, os)) [(0, 1 :: nat, 0, True)]
         (snd (arv_set_gv_port_range 9000 9002 initial_port_range)) () =
       (\<lparr> arv_port_minimum = 9000, arv_port_maximum = 9002, arv_last_port_offset = 0 \<rparr>, ())
   \<and> length (bind_calls (arv_socket_bind_with_range (\<lambda>os socket sa reuse. (Bind_ok, os)) 0 (1 :: nat) 0 True
         \<lparr> arv_port_minimum = 9000, arv_port_maximum = 9002, arv_last_port_offset = 0 \<rparr> ())) \<le> 3
   \<and> list_all (\<lambda>c. 9000 \<le> port (fst c) \<and> port (fst c) \<le> 9002)
        (bind_calls (arv_socket_bind_with_range (\<lambda>os socket sa reuse. (Bind_ok, os)) 0 (1 :: nat) 0 True
           \<lparr> arv_port_minimum = 9000, arv_port_maximum = 9002, arv_last_port_offset = 0 \<rparr> ()))"
proof -
  have h1: "(9000 :: 16 word) \<le> 9002" and h2: "\<not> ((9000 :: 16 word) = 0 \<and> (9002 :: 16 word) = 0)"
    by simp_all
  have h3: "bind_sequence (\<lambda>os socket sa reuse. (Bind_ok, os)) [(0, 1 :: nat, 0, True)]
         (snd (arv_set_gv_port_range 9000 9002 initial_port_range)) () =
       (\<lparr> arv_port_minimum = 9000, arv_port_maximum = 9002, arv_last_port_offset = 0 \<rparr>, ())"
    by (simp add: set_range_result arv_socket_bind_with_range_def port_scan_bound
          advance_cursor_def candidate_def)
  show ?thesis
    using h1 h2 h3 automatic_bind_stays_in_range [OF h1 h2 h3, of 0 "1 :: nat" True]
    by simp
qed


lemma retried_in_use: "retried (Bind_failed (Some e)) \<longleftrightarrow> address_in_use e"
  by (simp add: retried_def aborts_scan_def address_in_use_def)

text \<open>
  C3. In a scan (port 0, range enabled), with the calls of \<open>g_socket_bind\<close> numbered from 0:
  a call that fails with the address-in-use error is followed by a call to the next
  candidate, as long as the range has one left; a call that fails with any other error is
  the last one, and that error is what the caller gets; and when every call made has
  failed with the address-in-use error, all \<open>pmax - pmin + 1\<close> candidates have been tried and
  the caller gets the port-exhaustion error, whose message gives \<open>pmin\<close> and \<open>pmax\<close>.
\<close>

theorem scan_error_handling:
  assumes "range_installed pmin pmax st" and "\<not> (pmin = 0 \<and> pmax = 0)"
  shows
    "(\<forall>k e. k < length (bind_calls (arv_socket_bind_with_range g socket a 0 reuse st os)) \<and>
            snd (bind_calls (arv_socket_bind_with_range g socket a 0 reuse st os) ! k) = Bind_failed (Some e) \<and>
            address_in_use e \<and> Suc k < unat pmax - unat pmin + 1 \<longrightarrow>
            Suc k < length (bind_calls (arv_socket_bind_with_range g socket a 0 reuse st os)) \<and>
            fst (bind_calls (arv_socket_bind_with_range g socket a 0 reuse st os) ! Suc k) =
              g_inet_socket_address_new a
                (pmin + of_nat ((unat (arv_last_port_offset st) + 1 + Suc k) mod (unat pmax - unat pmin + 1))))
   \<and> (\<forall>k e. k < length (bind_calls (arv_socket_bind_with_range g socket a 0 reuse st os)) \<and>
            snd (bind_calls (arv_socket_bind_with_range g socket a 0 reuse st os) ! k) = Bind_failed (Some e) \<and>
            \<not> address_in_use e \<longrightarrow>
            Suc k = length (bind_calls (arv_socket_bind_with_range g socket a 0 reuse st os)) \<and>
            returned (arv_socket_bind_with_range g socket a 0 reuse st os) = Failed (Some e))
   \<and> (list_all (\<lambda>c. \<exists>e. snd c = Bind_failed (Some e) \<and> address_in_use e)
          (bind_calls (arv_socket_bind_with_range g socket a 0 reuse st os)) \<longrightarrow>
        length (bind_calls (arv_socket_bind_with_range g socket a 0 reuse st os)) = unat pmax - unat pmin + 1 \<and>
        returned (arv_socket_bind_with_range g socket a 0 reuse st os) =
          Failed (Some (GError ARV_NETWORK_ERROR ARV_NETWORK_ERROR_PORT_EXHAUSTION
            (''No more available port in range ['' @ format_u (unat pmin) @ ''..'' @
             format_u (unat pmax) @ '']''))))"
proof -
  let ?N = "unat pmax - unat pmin + 1"
  define r where "r = arv_socket_bind_with_range g socket a 0 reuse st os"
  define cs where "cs = bind_calls r"
  have scan: "r = port_scan g socket a reuse 0 st os"
    unfolding r_def by (rule bind_automatic_is_scan [OF assms])
  note tr = port_scan_trace [where i = 0 and g = g and socket = socket and a = a and reuse = reuse and os = os, OF refl assms(1)]
  note out = port_scan_outcome [where i = 0 and g = g and socket = socket and a = a and reuse = reuse and os = os, OF refl assms(1)]
  have addrs: "map fst cs =
      map (\<lambda>k. g_inet_socket_address_new a
                 (pmin + of_nat ((unat (arv_last_port_offset st) + 1 + k) mod ?N)))
        [0..<length cs]"
    using tr by (simp add: scan cs_def)
  have but: "list_all retried (map snd (butlast cs))"
    using out by (simp add: scan cs_def)
  have bound: "cs \<noteq> [] \<and> last cs = (sa, Bind_ok)" if "returned r = Bound sa" for sa
    using that out by (simp add: scan cs_def)
  have failed: "(cs \<noteq> [] \<and> snd (last cs) = Bind_failed e \<and> aborts_scan e)
      \<or> (e = Some (port_exhaustion_error st) \<and> length cs = ?N \<and> list_all retried (map snd cs))"
    if "returned r = Failed e" for e
    using that out by (simp add: scan cs_def)
  have nodiv: "returned r \<noteq> Division_by_zero"
    using out by (simp add: scan)
  have err: "port_exhaustion_error st =
      GError ARV_NETWORK_ERROR ARV_NETWORK_ERROR_PORT_EXHAUSTION
        (''No more available port in range ['' @ format_u (unat pmin) @ ''..'' @
         format_u (unat pmax) @ '']'')"
    by (simp add: port_exhaustion_error_def installed_facts(1,2) [OF assms(1)])
  have early: "retried (snd (cs ! k))" if "Suc k < length cs" for k
  proof -
    from that have "k < length (butlast cs)" by simp
    then have "retried (map snd (butlast cs) ! k)"
      using but by (simp add: list_all_length del: map_butlast)
    then show ?thesis using \<open>k < length (butlast cs)\<close> by (simp add: nth_butlast del: map_butlast)
  qed
  have is_last: "last cs = cs ! k" if "k < length cs" and "\<not> Suc k < length cs" for k
  proof -
    from that have "k = length cs - 1" and "cs \<noteq> []" by auto
    then show ?thesis by (simp add: last_conv_nth)
  qed
  have a: "Suc k < length cs \<and>
      fst (cs ! Suc k) = g_inet_socket_address_new a
        (pmin + of_nat ((unat (arv_last_port_offset st) + 1 + Suc k) mod ?N))"
    if k: "k < length cs" and f: "snd (cs ! k) = Bind_failed (Some e)" and u: "address_in_use e"
      and n: "Suc k < ?N" for k e
  proof -
    have next_call: "Suc k < length cs"
    proof (rule ccontr)
      assume not: "\<not> Suc k < length cs"
      then have l: "last cs = cs ! k" using k by (simp add: is_last)
      show False
      proof (cases "returned r")
        case (Bound sa)
        then show False using bound l f by simp
      next
        case (Failed e')
        then show False using failed [OF Failed] l f u k n not
          by (auto simp: aborts_scan_def address_in_use_def)
      next
        case Division_by_zero
        then show False using nodiv by simp
      qed
    qed
    then have "map fst cs ! Suc k = g_inet_socket_address_new a
        (pmin + of_nat ((unat (arv_last_port_offset st) + 1 + Suc k) mod ?N))"
      unfolding addrs by simp
    then show ?thesis using next_call by simp
  qed
  have b: "Suc k = length cs \<and> returned r = Failed (Some e)"
    if k: "k < length cs" and f: "snd (cs ! k) = Bind_failed (Some e)" and u: "\<not> address_in_use e"
    for k e
  proof -
    have not: "\<not> Suc k < length cs"
      using early [of k] f u by (auto simp: retried_in_use)
    then have l: "last cs = cs ! k" using k by (simp add: is_last)
    have "returned r = Failed (Some e)"
    proof (cases "returned r")
      case (Bound sa)
      then show ?thesis using bound l f by simp
    next
      case (Failed e')
      have "\<not> list_all retried (map snd cs)"
        using k f u by (auto simp: list_all_length retried_in_use)
      then show ?thesis using failed [OF Failed] l f Failed by auto
    next
      case Division_by_zero
      then show ?thesis using nodiv by simp
    qed
    then show ?thesis using not k by simp
  qed
  have c: "length cs = ?N \<and> returned r = Failed (Some (GError ARV_NETWORK_ERROR ARV_NETWORK_ERROR_PORT_EXHAUSTION
            (''No more available port in range ['' @ format_u (unat pmin) @ ''..'' @
             format_u (unat pmax) @ '']'')))"
    if all: "list_all (\<lambda>c. \<exists>e. snd c = Bind_failed (Some e) \<and> address_in_use e) cs"
  proof -
    have l: "\<exists>e. snd (last cs) = Bind_failed (Some e) \<and> address_in_use e" if "cs \<noteq> []"
      using all that by (simp add: list_all_iff)
    show ?thesis
    proof (cases "returned r")
      case (Bound sa)
      then show ?thesis using bound l by auto
    next
      case (Failed e')
      then show ?thesis using failed [OF Failed] l err
        by (auto simp: aborts_scan_def address_in_use_def)
    next
      case Division_by_zero
      then show ?thesis using nodiv by simp
    qed
  qed
  show ?thesis
    unfolding r_def [symmetric] cs_def [symmetric]
    using a b c by blast
qed



theorem scan_error_handling_witness:
  "range_installed 9000 9001 \<lparr> arv_port_minimum = 9000, arv_port_maximum = 9001, arv_last_port_offset = 1 \<rparr>
   \<and> \<not> ((9000 :: 16 word) = 0 \<and> (9001 :: 16 word) = 0)
   \<and> address_in_use (GError G_IO_ERROR G_IO_ERROR_ADDRESS_IN_USE ''in use'')
   \<and> \<not> address_in_use (GError G_IO_ERROR 14 ''permission denied'')
   \<and> bind_calls (arv_socket_bind_with_range
         (\<lambda>os socket sa reuse. (Bind_failed (Some (GError G_IO_ERROR G_IO_ERROR_ADDRESS_IN_USE ''in use'')), os))
         0 (1 :: nat) 0 True
         \<lparr> arv_port_minimum = 9000, arv_port_maximum = 9001, arv_last_port_offset = 1 \<rparr> ()) =
       [(g_inet_socket_address_new 1 9000, Bind_failed (Some (GError G_IO_ERROR G_IO_ERROR_ADDRESS_IN_USE ''in use''))),
        (g_inet_socket_address_new 1 9001, Bind_failed (Some (GError G_IO_ERROR G_IO_ERROR_ADDRESS_IN_USE ''in use'')))]
   \<and> returned (arv_socket_bind_with_range
         (\<lambda>os socket sa reuse. (Bind_failed (Some (GError G_IO_ERROR G_IO_ERROR_ADDRESS_IN_USE ''in use'')), os))
         0 (1 :: nat) 0 True
         \<lparr> arv_port_minimum = 9000, arv_port_maximum = 9001, arv_last_port_offset = 1 \<rparr> ()) =
       Failed (Some (GError ARV_NETWORK_ERROR ARV_NETWORK_ERROR_PORT_EXHAUSTION
                 ''No more available port in range [9000..9001]''))
   \<and> bind_calls (arv_socket_bind_with_range
         (\<lambda>os socket sa reuse. (Bind_failed (Some (GError G_IO_ERROR 14 ''permission denied'')), os))
         0 (1 :: nat) 0 True
         \<lparr> arv_port_minimum = 9000, arv_port_maximum = 9001, arv_last_port_offset = 1 \<rparr> ()) =
       [(g_inet_socket_address_new 1 9000, Bind_failed (Some (GError G_IO_ERROR 14 ''permission denied'')))]
   \<and> returned (arv_socket_bind_with_range
         (\<lambda>os socket sa reuse. (Bind_failed (Some (GError G_IO_ERROR 14 ''permission denied'')), os))
         0 (1 :: nat) 0 True
         \<lparr> arv_port_minimum = 9000, arv_port_maximum = 9001, arv_last_port_offset = 1 \<rparr> ()) =
       Failed (Some (GError G_IO_ERROR 14 ''permission denied''))"
proof -
  let ?st = "\<lparr> arv_port_minimum = 9000, arv_port_maximum = 9001, arv_last_port_offset = 1 \<rparr>"
  let ?busy = "\<lambda>(os :: unit) (socket :: nat) (sa :: nat socket_address) (reuse :: bool).
                 (Bind_failed (Some (GError G_IO_ERROR G_IO_ERROR_ADDRESS_IN_USE ''in use'')), os)"
  let ?denied = "\<lambda>(os :: unit) (socket :: nat) (sa :: nat socket_address) (reuse :: bool).
                 (Bind_failed (Some (GError G_IO_ERROR 14 ''permission denied'')), os)"
  have h1: "range_installed 9000 9001 ?st" by (simp add: range_installed_def)
  have h2: "\<not> ((9000 :: 16 word) = 0 \<and> (9001 :: 16 word) = 0)" by simp
  have u1: "address_in_use (GError G_IO_ERROR G_IO_ERROR_ADDRESS_IN_USE ''in use'')"
    by (simp add: address_in_use_def)
  have u2: "\<not> address_in_use (GError G_IO_ERROR 14 ''permission denied'')"
    by (simp add: address_in_use_def G_IO_ERROR_ADDRESS_IN_USE_def)
  have c1: "bind_calls (arv_socket_bind_with_range ?busy 0 1 0 True ?st ()) =
       [(g_inet_socket_address_new 1 9000, Bind_failed (Some (GError G_IO_ERROR G_IO_ERROR_ADDRESS_IN_USE ''in use''))),
        (g_inet_socket_address_new 1 9001, Bind_failed (Some (GError G_IO_ERROR G_IO_ERROR_ADDRESS_IN_USE ''in use'')))]"
    by (simp add: arv_socket_bind_with_range_def port_scan_retried port_scan_exhausted
          advance_cursor_def candidate_def aborts_scan_def note_call_def word_le_nat_alt)
  have c2: "bind_calls (arv_socket_bind_with_range ?denied 0 1 0 True ?st ()) =
       [(g_inet_socket_address_new 1 9000, Bind_failed (Some (GError G_IO_ERROR 14 ''permission denied'')))]"
    by (simp add: arv_socket_bind_with_range_def port_scan_aborted
          advance_cursor_def candidate_def aborts_scan_def G_IO_ERROR_ADDRESS_IN_USE_def word_le_nat_alt)
  have fmt: "format_u 9000 = ''9000''" "format_u 9001 = ''9001''"
    by (simp_all add: format_u.simps)
  note busy = scan_error_handling [OF h1 h2, of ?busy 0 1 True "()"]
  note denied = scan_error_handling [OF h1 h2, of ?denied 0 1 True "()"]
  have r1: "returned (arv_socket_bind_with_range ?busy 0 1 0 True ?st ()) =
       Failed (Some (GError ARV_NETWORK_ERROR ARV_NETWORK_ERROR_PORT_EXHAUSTION
                 ''No more available port in range [9000..9001]''))"
    using busy u1 unfolding c1 by (simp add: fmt)
  have r2: "returned (arv_socket_bind_with_range ?denied 0 1 0 True ?st ()) =
       Failed (Some (GError G_IO_ERROR 14 ''permission denied''))"
    using denied u2 unfolding c2 by simp
  show ?thesis using h1 h2 u1 u2 c1 c2 r1 r2 by simp
qed



text \<open>
  C7. After \<open>arv_set_gv_port_range 9000 9002\<close>, with an operating system on which every
  bind succeeds, four binds with port 0 one after the other each make a single call and
  return the ports 9000, 9001, 9002 and 9000 again: the three ports of the range are all
  used before one repeats. The cursor is left at 0, 1, 2 and 0; each call takes it up
  where the one before left it.
\<close>

theorem round_robin_across_calls:
  assumes "\<And>os socket sa reuse. fst (g os socket sa reuse) = Bind_ok"
  shows
    "(let st1 = snd (arv_set_gv_port_range 9000 9002 st0);
          r1 = arv_socket_bind_with_range g s1 a 0 u1 st1 os;
          r2 = arv_socket_bind_with_range g s2 a 0 u2 (range_after r1) (os_after r1);
          r3 = arv_socket_bind_with_range g s3 a 0 u3 (range_after r2) (os_after r2);
          r4 = arv_socket_bind_with_range g s4 a 0 u4 (range_after r3) (os_after r3)
      in map returned [r1, r2, r3, r4] =
           [Bound (g_inet_socket_address_new a 9000), Bound (g_inet_socket_address_new a 9001),
            Bound (g_inet_socket_address_new a 9002), Bound (g_inet_socket_address_new a 9000)]
         \<and> map (\<lambda>r. map fst (bind_calls r)) [r1, r2, r3, r4] =
           [[g_inet_socket_address_new a 9000], [g_inet_socket_address_new a 9001],
            [g_inet_socket_address_new a 9002], [g_inet_socket_address_new a 9000]]
         \<and> map (\<lambda>r. arv_last_port_offset (range_after r)) [r1, r2, r3, r4] = [0, 1, 2, 0])"
  by (simp add: Let_def set_range_result arv_socket_bind_with_range_def port_scan_bound assms
        advance_cursor_def candidate_def)


theorem round_robin_across_calls_witness:
  "(\<forall>(os :: unit) (socket :: nat) (sa :: nat socket_address) (reuse :: bool).
      fst ((\<lambda>os socket sa reuse. (Bind_ok, os)) os socket sa reuse) = Bind_ok)
   \<and> (let st1 = snd (arv_set_gv_port_range 9000 9002 initial_port_range);
          r1 = arv_socket_bind_with_range (\<lambda>os socket sa reuse. (Bind_ok, os)) 1 (7 :: nat) 0 True st1 ();
          r2 = arv_socket_bind_with_range (\<lambda>os socket sa reuse. (Bind_ok, os)) 2 7 0 True (range_after r1) (os_after r1);
          r3 = arv_socket_bind_with_range (\<lambda>os socket sa reuse. (Bind_ok, os)) 3 7 0 True (range_after r2) (os_after r2);
          r4 = arv_socket_bind_with_range (\<lambda>os socket sa reuse. (Bind_ok, os)) 4 7 0 True (range_after r3) (os_after r3)
      in map returned [r1, r2, r3, r4] =
           [Bound (g_inet_socket_address_new 7 9000), Bound (g_inet_socket_address_new 7 9001),
            Bound (g_inet_socket_address_new 7 9002), Bound (g_inet_socket_address_new 7 9000)]
         \<and> map (\<lambda>r. map fst (bind_calls r)) [r1, r2, r3, r4] =
           [[g_inet_socket_address_new 7 9000], [g_inet_socket_address_new 7 9001],
            [g_inet_socket_address_new 7 9002], [g_inet_socket_address_new 7 9000]]
         \<and> map (\<lambda>r. arv_last_port_offset (range_after r)) [r1, r2, r3, r4] = [0, 1, 2, 0])"
proof -
  have h: "\<And>(os :: unit) (socket :: nat) (sa :: nat socket_address) (reuse :: bool).
      fst ((\<lambda>os socket sa reuse. (Bind_ok, os)) os socket sa reuse) = Bind_ok"
    by simp
  have "let st1 = snd (arv_set_gv_port_range 9000 9002 initial_port_range);
          r1 = arv_socket_bind_with_range (\<lambda>os socket sa reuse. (Bind_ok, os)) 1 (7 :: nat) 0 True st1 ();
          r2 = arv_socket_bind_with_range (\<lambda>os socket sa reuse. (Bind_ok, os)) 2 7 0 True (range_after r1) (os_after r1);
          r3 = arv_socket_bind_with_range (\<lambda>os socket sa reuse. (Bind_ok, os)) 3 7 0 True (range_after r2) (os_after r2);
          r4 = arv_socket_bind_with_range (\<lambda>os socket sa reuse. (Bind_ok, os)) 4 7 0 True (range_after r3) (os_after r3)
      in map returned [r1, r2, r3, r4] =
           [Bound (g_inet_socket_address_new 7 9000), Bound (g_inet_socket_address_new 7 9001),
            Bound (g_inet_socket_address_new 7 9002), Bound (g_inet_socket_address_new 7 9000)]
         \<and> map (\<lambda>r. map fst (bind_calls r)) [r1, r2, r3, r4] =
           [[g_inet_socket_address_new 7 9000], [g_inet_socket_address_new 7 9001],
            [g_inet_socket_address_new 7 9002], [g_inet_socket_address_new 7 9000]]
         \<and> map (\<lambda>r. arv_last_port_offset (range_after r)) [r1, r2, r3, r4] = [0, 1, 2, 0]"
    by (rule round_robin_across_calls [of "\<lambda>os socket sa reuse. (Bind_ok, os)", OF h])
  then show ?thesis using h by blast
qed


section \<open>The range given as a string\<close>

lemmas from_string_defs =
  arv_set_gv_port_range_from_string_def g_regex_match_def is_digit_def dollar_def
  newline_sequences_def g_ascii_strtoull_def decimal_value_def

lemma from_string_100_200:
  "arv_set_gv_port_range_from_string (Some ''100-200'') st = arv_set_gv_port_range 100 200 st"
  by (simp add: from_string_defs)

lemma from_string_rejects_abc:
  "arv_set_gv_port_range_from_string (Some ''abc'') st = (False, st)"
  by (simp add: from_string_defs)

lemma from_string_rejects_missing_bound:
  "arv_set_gv_port_range_from_string (Some ''100-'') st = (False, st)"
  by (simp add: from_string_defs)

lemma from_string_no_match:
  "g_regex_match s = None \<Longrightarrow> arv_set_gv_port_range_from_string (Some s) st = (False, st)"
  by (simp add: arv_set_gv_port_range_from_string_def)

lemma from_string_reversed_bounds:
  "arv_set_gv_port_range_from_string (Some ''200-100'') st = (False, st)"
  by (simp add: from_string_defs)

text \<open>A newline after the second number is let through by \<open>$\<close>.\<close>

lemma from_string_accepts_final_newline:
  "arv_set_gv_port_range_from_string (Some (''100-200'' @ [CHR 0x0A])) st =
     arv_set_gv_port_range 100 200 st"
  by (simp add: from_string_defs)

text \<open>
  C6, at the string \<open>65536-5\<close>. The pattern matches, the two numbers are 65536 and 5, and
  65536 is larger than 5; but each number is cut to sixteen bits before the comparison,
  so the call succeeds and installs the range from 0 to 5.
\<close>

theorem from_string_wraps_large_bounds:
  "g_regex_match ''65536-5'' = Some (''65536'', ''5'')
   \<and> decimal_value ''65536'' = 65536 \<and> decimal_value ''5'' = 5
   \<and> arv_set_gv_port_range_from_string (Some ''65536-5'') st =
       (True, \<lparr> arv_port_minimum = 0, arv_port_maximum = 5, arv_last_port_offset = 5 \<rparr>)"
  by (simp add: from_string_defs set_range_result)

section \<open>The broadcast address of an enumerated interface\<close>

lemma enumerate_loop_rev:
  "rev (enumerate_loop p ifap ret) = rev ret @ map (new_interface p) (filter ifa_accepted ifap)"
  by (induction ifap arbitrary: ret) simp_all

lemma enumerate_accepted:
  "arv_enumerate_network_interfaces p (Some ifap) = map (new_interface p) (filter ifa_accepted ifap)"
  by (simp add: arv_enumerate_network_interfaces_def enumerate_loop_rev)

text \<open>
  C9 as stated fails where the build is not for Apple or BSD: a loopback entry that is up,
  has the address 127.0.0.1 and no broadcast address is accepted, and its descriptor has
  no broadcast address at all.
\<close>

theorem enumerate_without_broadcast_on_other_posix:
  "ifa_accepted \<lparr> ifa_name = Some ''lo'', ifa_flags = 1,
       ifa_addr = Some \<lparr> sa_len = 16, sa = Sockaddr_in (In_addr 127 0 0 1) \<rparr>,
       ifa_netmask = None, ifa_broadaddr = None \<rparr>
   \<and> arv_enumerate_network_interfaces Other_posix
       (Some [\<lparr> ifa_name = Some ''lo'', ifa_flags = 1,
                ifa_addr = Some \<lparr> sa_len = 16, sa = Sockaddr_in (In_addr 127 0 0 1) \<rparr>,
                ifa_netmask = None, ifa_broadaddr = None \<rparr>]) =
       [\<lparr> addr = Some (Sockaddr_in (In_addr 127 0 0 1)), netmask = None, broadaddr = None,
          name = Some ''lo'' \<rparr>]"
  by (simp add: arv_enumerate_network_interfaces_def ifa_accepted_def IFF_UP_def new_interface_def
        arv_memdup_def sizeof_sockaddr_def g_strdup_def)

text \<open>
  C9, amended. The descriptors returned are those of the accepted entries, in their order.
  On a build for Apple or BSD, an accepted entry with no broadcast address (null, or of
  length zero), whose own address is reported with a length that is not zero, gets its own
  address as broadcast address. On the other POSIX builds an accepted entry with a null
  broadcast address gets none.
\<close>

theorem broadcast_defaults_to_address_on_bsd:
  "arv_enumerate_network_interfaces p (Some ifap) = map (new_interface p) (filter ifa_accepted ifap)
   \<and> (\<forall>ifa x. ifa_accepted ifa \<and> ifa_addr ifa = Some x \<and> sa_len x \<noteq> 0 \<and>
            (ifa_broadaddr ifa = None \<or> (\<exists>b. ifa_broadaddr ifa = Some b \<and> sa_len b = 0)) \<longrightarrow>
            addr (new_interface Apple_or_BSD ifa) = Some (sa x) \<and>
            broadaddr (new_interface Apple_or_BSD ifa) = Some (sa x))
   \<and> (\<forall>ifa. ifa_accepted ifa \<and> ifa_broadaddr ifa = None \<longrightarrow>
            broadaddr (new_interface Other_posix ifa) = None)"
  by (auto simp: enumerate_accepted new_interface_def arv_memdup_def sizeof_sockaddr_def
        ifa_addr_len_def unat_eq_0)

theorem broadcast_defaults_to_address_on_bsd_witness:
  "ifa_accepted \<lparr> ifa_name = Some ''lo0'', ifa_flags = 1,
       ifa_addr = Some \<lparr> sa_len = 16, sa = Sockaddr_in (In_addr 127 0 0 1) \<rparr>,
       ifa_netmask = None, ifa_broadaddr = None \<rparr>
   \<and> arv_enumerate_network_interfaces Apple_or_BSD
       (Some [\<lparr> ifa_name = Some ''lo0'', ifa_flags = 1,
                ifa_addr = Some \<lparr> sa_len = 16, sa = Sockaddr_in (In_addr 127 0 0 1) \<rparr>,
                ifa_netmask = None, ifa_broadaddr = None \<rparr>]) =
       [new_interface Apple_or_BSD \<lparr> ifa_name = Some ''lo0'', ifa_flags = 1,
                ifa_addr = Some \<lparr> sa_len = 16, sa = Sockaddr_in (In_addr 127 0 0 1) \<rparr>,
                ifa_netmask = None, ifa_broadaddr = None \<rparr>]
   \<and> broadaddr (new_interface Apple_or_BSD \<lparr> ifa_name = Some ''lo0'', ifa_flags = 1,
                ifa_addr = Some \<lparr> sa_len = 16, sa = Sockaddr_in (In_addr 127 0 0 1) \<rparr>,
                ifa_netmask = None, ifa_broadaddr = None \<rparr>) =
       Some (Sockaddr_in (In_addr 127 0 0 1))
   \<and> broadaddr (new_interface Other_posix \<lparr> ifa_name = Some ''lo0'', ifa_flags = 1,
                ifa_addr = Some \<lparr> sa_len = 16, sa = Sockaddr_in (In_addr 127 0 0 1) \<rparr>,
                ifa_netmask = None, ifa_broadaddr = None \<rparr>) = None"
proof -
  let ?lo = "\<lparr> ifa_name = Some ''lo0'', ifa_flags = 1,
       ifa_addr = Some \<lparr> sa_len = 16, sa = Sockaddr_in (In_addr 127 0 0 1) \<rparr>,
       ifa_netmask = None, ifa_broadaddr = None \<rparr>"
  let ?x = "\<lparr> sa_len = 16, sa = Sockaddr_in (In_addr 127 0 0 1) \<rparr>"
  have h1: "ifa_accepted ?lo" by (simp add: ifa_accepted_def IFF_UP_def)
  have h2: "ifa_addr ?lo = Some ?x" by simp
  have h3: "sa_len ?x \<noteq> 0" by simp
  have h4: "ifa_broadaddr ?lo = None" by simp
  note at_lo = broadcast_defaults_to_address_on_bsd [of Apple_or_BSD "[?lo]"]
  have e: "arv_enumerate_network_interfaces Apple_or_BSD (Some [?lo]) = [new_interface Apple_or_BSD ?lo]"
    using at_lo h1 by simp
  have b: "broadaddr (new_interface Apple_or_BSD ?lo) = Some (Sockaddr_in (In_addr 127 0 0 1))"
  proof -
    have "broadaddr (new_interface Apple_or_BSD ?lo) = Some (sa ?x)"
      using at_lo h1 h2 h3 h4 by blast
    then show ?thesis by simp
  qed
  have o: "broadaddr (new_interface Other_posix ?lo) = None"
    using at_lo h1 h4 by blast
  show ?thesis using h1 e b o by blast
qed

end
